theory Spec2Isabelle
  imports Complex_Main "HOL-Library.Sublist"
begin

section \<open>The still render flow of the command line interface\<close>

text \<open>
  This theory embeds \<^verbatim>\<open>renderStillFlow\<close> of
  \<^verbatim>\<open>packages/cli/src/render-flows/still.ts\<close>. The flow is an asynchronous
  function that calls collaborators (browser, bundler, server, composition resolver,
  renderer), mutates one aggregate progress object, reports it to two sinks and touches the
  file system. The model threads a state (aggregate, file system, log of the calls made)
  through the statements of the flow in source order; every call that can throw returns a
  sum and every throw ends the flow with that error.
\<close>

subsection \<open>Data model\<close>

datatype StillImageFormat = Png | Jpeg | Pdf | Webp

datatype LogLevel = LevelTrace | LevelVerbose | LevelInfo | LevelWarn | LevelError

text \<open>
  Errors follow the taxonomy of the specification; \<open>FileSystemError\<close> stands for what
  \<^verbatim>\<open>mkdirSync\<close> throws.
\<close>

datatype error =
    ValidationError
  | ResourceAcquisitionError
  | BundlingError
  | CompositionResolutionError
  | OutputExistsError
  | RenderError
  | CancellationError
  | FileSystemError

text \<open>Handles of the browser, the server and the bundle's cleanup function are opaque.\<close>

type_synonym handle = nat

record RenderingProgress =
  frames :: nat
  doneIn :: "int option"
  totalFrames :: nat
  timeRemainingInMilliseconds :: "int option"

type_synonym DownloadProgress = "string \<times> nat"

record AggregateRenderProgress =
  rendering :: "RenderingProgress option"
  bundling :: nat
  copyingState :: nat
  downloads :: "DownloadProgress list"

text \<open>
  What \<^verbatim>\<open>makeRenderingAndStitchingProgress\<close> returns: the fields
  \<^verbatim>\<open>output\<close>, \<^verbatim>\<open>progress\<close> and \<^verbatim>\<open>message\<close>.
\<close>

record ProgressReport =
  reportOutput :: string
  reportProgress :: real
  reportMessage :: string

text \<open>
  The closures handed to \<^verbatim>\<open>addCleanupCallback\<close> (lines 211 to 216) and to
  \<^verbatim>\<open>registerCleanupJob\<close> (line 184), named by what they call.
\<close>

datatype CleanupCallback =
    CloseServer handle
  | CleanupBundle handle
  | CloseBrowser handle
  | DeleteDirectory string

text \<open>The awaited collaborator calls of the flow.\<close>

datatype stage =
    InternalEnsureBrowser
  | InternalOpenBrowser
  | BundleOnCliOrTakeServeUrl
  | PrepareServer
  | GetCompositionWithDimensionOverride
  | InternalRenderStill

subsection \<open>Paths and the file system\<close>

text \<open>
  An absolute path is its list of segments below the root. \<open>path_resolve\<close> and
  \<open>path_join\<close> are the POSIX \<^verbatim>\<open>path.resolve(cwd, p)\<close> and
  \<^verbatim>\<open>path.join(abs, p)\<close>: empty and \<^verbatim>\<open>.\<close> segments are dropped,
  \<^verbatim>\<open>..\<close> removes the last segment and stays at the root.
\<close>

type_synonym abspath = "string list"

fun split_at :: "char \<Rightarrow> string \<Rightarrow> string list" where
  "split_at c [] = [[]]"
| "split_at c (x # xs) =
     (if x = c then [] # split_at c xs
      else (case split_at c xs of [] \<Rightarrow> [[x]] | w # ws \<Rightarrow> (x # w) # ws))"

definition step_segment :: "abspath \<Rightarrow> string \<Rightarrow> abspath" where
  "step_segment p seg =
     (if seg = [] \<or> seg = ''.'' then p
      else if seg = ''..'' then butlast p
      else p @ [seg])"

definition isAbsolute :: "string \<Rightarrow> bool" where
  "isAbsolute p = (case p of [] \<Rightarrow> False | c # _ \<Rightarrow> c = CHR ''/'')"

definition path_resolve :: "abspath \<Rightarrow> string \<Rightarrow> abspath" where
  "path_resolve cwd p =
     foldl step_segment (if isAbsolute p then [] else cwd) (split_at CHR ''/'' p)"

definition path_join :: "abspath \<Rightarrow> string \<Rightarrow> abspath" where
  "path_join a p = foldl step_segment a (split_at CHR ''/'' p)"

datatype node = File | Directory

type_synonym filesystem = "abspath \<Rightarrow> node option"

definition existsSync :: "filesystem \<Rightarrow> abspath \<Rightarrow> bool" where
  "existsSync fs p = (p = [] \<or> fs p \<noteq> None)"

text \<open>
  \<^verbatim>\<open>mkdirSync(dir, {recursive: true})\<close>: walks from the root, creates every
  missing directory, accepts the ones that are there, and throws when a segment of the
  chain is a file.
\<close>

fun mkdirChain :: "filesystem \<Rightarrow> abspath \<Rightarrow> string list \<Rightarrow> error + filesystem" where
  "mkdirChain fs p [] = Inr fs"
| "mkdirChain fs p (seg # segs) =
     (case fs (p @ [seg]) of
        Some File \<Rightarrow> Inl FileSystemError
      | Some Directory \<Rightarrow> mkdirChain fs (p @ [seg]) segs
      | None \<Rightarrow> mkdirChain (fs(p @ [seg] \<mapsto> Directory)) (p @ [seg]) segs)"

definition mkdirSync_recursive :: "filesystem \<Rightarrow> abspath \<Rightarrow> error + filesystem" where
  "mkdirSync_recursive fs dir = mkdirChain fs [] dir"

text \<open>Every directory on the way from the root to the parent of \<open>p\<close> is there.\<close>

definition parentChainExists :: "filesystem \<Rightarrow> abspath \<Rightarrow> bool" where
  "parentChainExists fs p =
     list_all (\<lambda>q. q = [] \<or> fs q = Some Directory) (prefixes (butlast p))"

subsection \<open>Inputs, collaborators and effects\<close>

text \<open>
  The parameters of \<^verbatim>\<open>renderStillFlow\<close> that the flow itself reads. The others
  (\<^verbatim>\<open>remotionRoot\<close>, \<^verbatim>\<open>browser\<close>, \<^verbatim>\<open>chromiumOptions\<close>,
  \<^verbatim>\<open>envVariables\<close>, \<^verbatim>\<open>port\<close>, \<^verbatim>\<open>scale\<close>, ...) are only handed on
  to collaborators, whose outcomes are parameters below. \<open>cancelSignal\<close> is \<open>None\<close>
  for \<^verbatim>\<open>null\<close> and \<open>Some c\<close> for a signal, \<open>c\<close> telling whether cancellation
  has been requested when the flow starts.
\<close>

record JobOptions =
  fullEntryPoint :: string
  entryPointReason :: string
  overwrite :: bool
  stillFrame :: int
  imageFormatFromUi :: "StillImageFormat option"
  logLevel :: LogLevel
  indent :: bool
  cancelSignal :: "bool option"
  outputLocationFromUi :: "string option"

text \<open>
  What the bundler does while it is awaited (lines 167 to 197): it calls
  \<^verbatim>\<open>onProgress\<close> and \<^verbatim>\<open>onDirectoryCreated\<close> any number of times, in an
  order of its own, then resolves to \<^verbatim>\<open>{cleanup, urlOrBundle}\<close> or rejects.
\<close>

datatype BundleCallback = OnProgressCall nat nat | OnDirectoryCreated string

record BundleRun =
  bundleCallbacks :: "BundleCallback list"
  bundleResult :: "error + (handle \<times> string)"

record CompositionResolution =
  compositionId :: string
  config :: nat
  reason :: string
  argsAfterComposition :: "string list"

text \<open>The arguments of \<^verbatim>\<open>internalRenderStill\<close> that the flow computes or that claims read.\<close>

record RenderStillOptions =
  still_composition :: nat
  still_frame :: int
  still_output :: abspath
  still_serveUrl :: string
  still_imageFormat :: StillImageFormat
  still_overwrite :: bool
  still_puppeteerInstance :: handle
  still_server :: handle
  still_cancelSignal :: "bool option"

text \<open>
  What the renderer does while it is awaited (lines 322 to 353): through
  \<^verbatim>\<open>onDownload\<close>, the closure of \<^verbatim>\<open>makeOnDownload\<close> over
  \<^verbatim>\<open>aggregate.downloads\<close> and \<^verbatim>\<open>updateRenderProgress\<close>, it may change the
  downloads array and ask for a progress update (with its own \<^verbatim>\<open>newline\<close> and
  \<^verbatim>\<open>printToConsole\<close>), any number of times; then it resolves or rejects.
\<close>

record RenderRun =
  downloadUpdates :: "(DownloadProgress list \<times> bool \<times> bool) list"
  renderResult :: "error option"

text \<open>Which tier decided the image format.\<close>

datatype FormatSource = ExplicitOverride | ProjectDefault | OutputExtension | BuiltInFallback

text \<open>
  The collaborators and ambient values of one run. A collaborator is given by its outcome:
  the flow calls each at most once. \<open>dateNow n\<close> is the \<open>n\<close>-th reading of
  \<^verbatim>\<open>Date.now()\<close>; \<open>sourceText\<close> is the text of the label of a tier.
\<close>

text \<open>
  Modelled from the spec: \<^verbatim>\<open>makeRenderingAndStitchingProgress\<close>
  (\<^verbatim>\<open>../progress-bar\<close>) is missing from the sources. Section 4.2 calls the report
  "a pure function of the current aggregate". The model does not build that in: the
  reporter is given, like the clock, by what its \<open>n\<close>-th call returns for the two
  arguments of the call at lines 132 to 135, \<^verbatim>\<open>prog\<close> and
  \<^verbatim>\<open>isUsingParallelEncoding\<close>, so a reporter that reads anything besides its
  arguments is covered; the specification's reporter is one that returns the same for
  every \<open>n\<close>.
\<close>

record Collaborators =
  isEqualOrBelowLogLevel :: "LogLevel \<Rightarrow> LogLevel \<Rightarrow> bool"
  shouldUseNonOverlayingLogger :: "LogLevel \<Rightarrow> bool"
  quietFlagProvided :: bool
  initialAggregateRenderProgress :: AggregateRenderProgress
  makeRenderingAndStitchingProgress :: "nat \<Rightarrow> AggregateRenderProgress \<Rightarrow> bool \<Rightarrow> ProgressReport"
  internalEnsureBrowser :: "error option"
  internalOpenBrowser :: "error + handle"
  bundleOnCliOrTakeServeUrl :: BundleRun
  prepareServer :: "string \<Rightarrow> error + handle"
  getCompositionWithDimensionOverride :: "handle \<Rightarrow> handle \<Rightarrow> string \<Rightarrow> error + CompositionResolution"
  parsedCliImageFormat :: "StillImageFormat option"
  getUserPreferredStillImageFormat :: "StillImageFormat option"
  getUserPassedOutputLocation :: "string list \<Rightarrow> string option \<Rightarrow> string option"
  sourceText :: "FormatSource \<Rightarrow> string"
  cwd :: abspath
  dateNow :: "nat \<Rightarrow> int"
  internalRenderStill :: "RenderStillOptions \<Rightarrow> RenderRun"
  LABEL_WIDTH :: nat

text \<open>
  The log of what the flow does, in order. \<open>Invoke\<close> is the call of a collaborator,
  \<open>Settled\<close> the point where the flow has awaited its promise (resolved or rejected).
  \<open>WriteRendering\<close> is an assignment to \<^verbatim>\<open>aggregate.rendering\<close>. The text of
  \<open>LogInfo\<close> is a list of UTF-16 code units, the others are plain strings; the colours of
  \<^verbatim>\<open>chalk\<close> are left out.
\<close>

datatype event =
    LogVerbose string
  | CreateOverwriteableCliOutput bool "bool option" bool bool
  | Invoke stage
  | Settled stage
  | RegisterCleanupJob CleanupCallback
  | AddCleanupCallback CleanupCallback
  | WriteRendering RenderingProgress
  | RenderProgressUpdate string bool
  | OnProgress string real AggregateRenderProgress
  | MkdirSync abspath
  | PrintFact string string
  | LogInfo "nat list"

text \<open>
  The state of a run: the aggregate, the file system, the log, and the number of calls of
  \<^verbatim>\<open>makeRenderingAndStitchingProgress\<close> made so far.
\<close>

record state =
  aggregate :: AggregateRenderProgress
  files :: filesystem
  trace :: "event list"
  evaluations :: nat

definition emit :: "event \<Rightarrow> state \<Rightarrow> state" where
  "emit e s = s\<lparr>trace := trace s @ [e]\<rparr>"

subsection \<open>Progress reporting (lines 123 to 141)\<close>

definition updateRenderProgress ::
  "Collaborators \<Rightarrow> JobOptions \<Rightarrow> bool \<Rightarrow> bool \<Rightarrow> bool \<Rightarrow> state \<Rightarrow> state" where
  "updateRenderProgress env job newline printToConsole isUsingParallelEncoding s =
     (let report = makeRenderingAndStitchingProgress env (evaluations s) (aggregate s)
                      isUsingParallelEncoding;
          s0 = s\<lparr>evaluations := Suc (evaluations s)\<rparr>;
          updatesDontOverwrite = shouldUseNonOverlayingLogger env (logLevel job);
          s' = (if printToConsole
                then emit (RenderProgressUpdate
                            (if updatesDontOverwrite then reportMessage report
                             else reportOutput report) newline) s0
                else s0)
      in emit (OnProgress (reportMessage report) (reportProgress report) (aggregate s')) s')"

text \<open>The bundler's two callbacks (lines 172 to 187).\<close>

fun bundleCallback :: "Collaborators \<Rightarrow> JobOptions \<Rightarrow> state \<Rightarrow> BundleCallback \<Rightarrow> state" where
  "bundleCallback env job s (OnProgressCall b c) =
     updateRenderProgress env job False True False
       (s\<lparr>aggregate := (aggregate s)\<lparr>bundling := b, copyingState := c\<rparr>\<rparr>)"
| "bundleCallback env job s (OnDirectoryCreated dir) =
     emit (RegisterCleanupJob (DeleteDirectory dir)) s"

text \<open>One call of the download callback by the renderer (lines 313 to 320).\<close>

fun onDownload ::
  "Collaborators \<Rightarrow> JobOptions \<Rightarrow> state \<Rightarrow> DownloadProgress list \<times> bool \<times> bool \<Rightarrow> state" where
  "onDownload env job s (ds, newline, printToConsole) =
     updateRenderProgress env job newline printToConsole False
       (s\<lparr>aggregate := (aggregate s)\<lparr>downloads := ds\<rparr>\<rparr>)"

subsection \<open>Helpers imported by the flow\<close>

text \<open>
  The string of a format: in the source a \<^verbatim>\<open>StillImageFormat\<close> is that string,
  and the flow passes it as \<^verbatim>\<open>defaultExtension\<close>.
\<close>

fun formatString :: "StillImageFormat \<Rightarrow> string" where
  "formatString Png = ''png''"
| "formatString Jpeg = ''jpeg''"
| "formatString Pdf = ''pdf''"
| "formatString Webp = ''webp''"

text \<open>
  Modelled from the spec: the inference of the third tier, "from an explicit output
  filename's extension" (section 4.6), is part of the missing
  \<^verbatim>\<open>determineFinalStillImageFormat\<close>. The extension is what follows the last dot
  of the last segment of the name, and it names a format when it is that format's string.
\<close>

definition extname :: "string \<Rightarrow> string option" where
  "extname name =
     (case split_at CHR ''.'' (last (split_at CHR ''/'' name)) of
        [] \<Rightarrow> None
      | [_] \<Rightarrow> None
      | parts \<Rightarrow> Some (last parts))"

definition formatOfExtension :: "string \<Rightarrow> StillImageFormat option" where
  "formatOfExtension ext = find (\<lambda>f. formatString f = ext) [Png, Jpeg, Pdf, Webp]"

definition inferFromOutName :: "string option \<Rightarrow> StillImageFormat option" where
  "inferFromOutName outName =
     (case outName of
        None \<Rightarrow> None
      | Some name \<Rightarrow> (case extname name of None \<Rightarrow> None | Some ext \<Rightarrow> formatOfExtension ext))"

text \<open>
  Modelled from the spec: \<^verbatim>\<open>determineFinalStillImageFormat\<close>
  (\<^verbatim>\<open>../determine-image-format\<close>) is missing from the sources. Section 4.6: "explicit
  caller/CLI override > project-level configured default > inference from an explicit
  output filename's extension > built-in fallback. The function evaluates candidates in
  this fixed order and returns the first defined one together with a label identifying
  which tier won". The arguments are those of the call at lines 240 to 251; the caller's
  override is \<^verbatim>\<open>fromUi\<close>, the CLI's is \<^verbatim>\<open>cliFlag\<close>; the specification
  gives no role to \<^verbatim>\<open>downloadName\<close> (passed \<^verbatim>\<open>null\<close>) and
  \<^verbatim>\<open>isLambda\<close> (passed \<^verbatim>\<open>false\<close>). The fallback is the "default
  extension" of section 8, \<^verbatim>\<open>png\<close>.
\<close>

definition determineFinalStillImageFormat ::
  "StillImageFormat option \<Rightarrow> StillImageFormat option \<Rightarrow> string option \<Rightarrow> string option
     \<Rightarrow> bool \<Rightarrow> StillImageFormat option \<Rightarrow> StillImageFormat \<times> FormatSource" where
  "determineFinalStillImageFormat cliFlag configImageFormat downloadName outName isLambda fromUi =
     (case fromUi of
        Some f \<Rightarrow> (f, ExplicitOverride)
      | None \<Rightarrow>
     (case cliFlag of
        Some f \<Rightarrow> (f, ExplicitOverride)
      | None \<Rightarrow>
     (case configImageFormat of
        Some f \<Rightarrow> (f, ProjectDefault)
      | None \<Rightarrow>
     (case inferFromOutName outName of
        Some f \<Rightarrow> (f, OutputExtension)
      | None \<Rightarrow> (Png, BuiltInFallback)))))"

text \<open>
  The specification's wording of the same decision: the candidates of the four tiers in
  their fixed order, the first defined one wins.
\<close>

fun firstDefined :: "('a option \<times> 'l) list \<Rightarrow> 'a \<times> 'l \<Rightarrow> 'a \<times> 'l" where
  "firstDefined [] fallback = fallback"
| "firstDefined ((None, l) # cs) fallback = firstDefined cs fallback"
| "firstDefined ((Some v, l) # cs) fallback = (v, l)"

definition explicitOverride ::
  "StillImageFormat option \<Rightarrow> StillImageFormat option \<Rightarrow> StillImageFormat option" where
  "explicitOverride fromUi cliFlag = (case fromUi of Some f \<Rightarrow> Some f | None \<Rightarrow> cliFlag)"

definition formatTiers ::
  "StillImageFormat option \<Rightarrow> StillImageFormat option \<Rightarrow> string option
     \<Rightarrow> StillImageFormat option \<Rightarrow> (StillImageFormat option \<times> FormatSource) list" where
  "formatTiers cliFlag configImageFormat outName fromUi =
     [(explicitOverride fromUi cliFlag, ExplicitOverride),
      (configImageFormat, ProjectDefault),
      (inferFromOutName outName, OutputExtension)]"

text \<open>
  Modelled from the spec: \<^verbatim>\<open>getOutputLocation\<close>
  (\<^verbatim>\<open>../user-passed-output-location\<close>) is missing from the sources. Section 4.5: "a
  raw requested location (possibly absent -- derived from composition id + chosen format
  extension)"; section 8: composition "MyComp" with no explicit output path resolves to
  "MyComp.png". The requested location is what \<^verbatim>\<open>getUserPassedOutputLocation\<close>
  of the same module returns, a parameter here. The argument \<^verbatim>\<open>type\<close> is always
  \<^verbatim>\<open>'asset'\<close>.
\<close>

definition getOutputLocation ::
  "Collaborators \<Rightarrow> string \<Rightarrow> StillImageFormat \<Rightarrow> string list \<Rightarrow> string option \<Rightarrow> string" where
  "getOutputLocation env compId defaultExtension args fromUi =
     (case getUserPassedOutputLocation env args fromUi of
        Some location \<Rightarrow> location
      | None \<Rightarrow> compId @ ''.'' @ formatString defaultExtension)"

text \<open>
  Modelled from the spec: \<^verbatim>\<open>getAndValidateAbsoluteOutputFile\<close>
  (\<^verbatim>\<open>../get-cli-options\<close>) is missing from the sources. Section 3: "absolutePath is
  canonicalized before the existence check"; section 4.5: "exists && !overwrite -> fails
  with OutputExistsError".
\<close>

definition getAndValidateAbsoluteOutputFile ::
  "Collaborators \<Rightarrow> filesystem \<Rightarrow> string \<Rightarrow> bool \<Rightarrow> error + abspath" where
  "getAndValidateAbsoluteOutputFile env fs relativeOutput overwriteFlag =
     (let absoluteOutputFile = path_resolve (cwd env) relativeOutput
      in if existsSync fs absoluteOutputFile \<and> \<not> overwriteFlag
         then Inl OutputExistsError
         else Inr absoluteOutputFile)"

text \<open>
  \<^verbatim>\<open>[a, b].filter(truthy).join(' ')\<close> of lines 276 to 278 and 285 to 287:
  \<^verbatim>\<open>null\<close> and the empty string are dropped.
\<close>

definition truthy :: "string option \<Rightarrow> bool" where
  "truthy x = (case x of None \<Rightarrow> False | Some t \<Rightarrow> t \<noteq> [])"

fun join :: "string \<Rightarrow> string list \<Rightarrow> string" where
  "join sep [] = []"
| "join sep [x] = x"
| "join sep (x # y # ys) = x @ sep @ join sep (y # ys)"

definition factRight :: "string option list \<Rightarrow> string" where
  "factRight xs = join '' '' (concat (map (\<lambda>x. case x of None \<Rightarrow> [] | Some t \<Rightarrow> [t]) (filter truthy xs)))"

text \<open>\<^verbatim>\<open>String.prototype.padEnd\<close> with the default filler, on UTF-16 code units.\<close>

definition padEnd :: "nat list \<Rightarrow> nat \<Rightarrow> nat list" where
  "padEnd t n = t @ replicate (n - length t) 32"

definition codeUnits :: "string \<Rightarrow> nat list" where
  "codeUnits t = map of_char t"

text \<open>The glyph of the summary line (line 369): U+25CB when the file was there, \<^verbatim>\<open>+\<close> otherwise.\<close>

definition glyph :: "bool \<Rightarrow> nat list" where
  "glyph existed = (if existed then [9675] else [43])"

subsection \<open>The flow (lines 46 to 372)\<close>

record Resources =
  urlOrBundle :: string
  server :: handle
  puppeteerInstance :: handle
  resolution :: CompositionResolution

record OutputLocation =
  imageFormat :: StillImageFormat
  source :: FormatSource
  relativeOutputLocation :: string
  absoluteOutputLocation :: abspath
  exists :: bool

text \<open>
  Lines 107 to 238. \<^verbatim>\<open>internalOpenBrowser\<close> is called at line 156 without
  \<^verbatim>\<open>await\<close>; its promise is awaited at line 215, after the bundle and the server,
  and that is where its rejection reaches the flow.
\<close>

definition acquireResources ::
  "Collaborators \<Rightarrow> JobOptions \<Rightarrow> state \<Rightarrow> (error + Resources) \<times> state" where
  "acquireResources env job s0 =
     (let s1 = emit (LogVerbose (''Entry point = '' @ fullEntryPoint job @ '' (''
                       @ entryPointReason job @ '')'')) s0;
          s2 = emit (CreateOverwriteableCliOutput (quietFlagProvided env) (cancelSignal job)
                       (shouldUseNonOverlayingLogger env (logLevel job)) (indent job)) s1;
          s3 = emit (Settled InternalEnsureBrowser) (emit (Invoke InternalEnsureBrowser) s2)
      in case internalEnsureBrowser env of
           Some e \<Rightarrow> (Inl e, s3)
         | None \<Rightarrow>
     (let s4 = emit (Invoke InternalOpenBrowser) s3;
          s5 = emit (Invoke BundleOnCliOrTakeServeUrl) s4;
          s6 = foldl (bundleCallback env job) s5 (bundleCallbacks (bundleOnCliOrTakeServeUrl env));
          s7 = emit (Settled BundleOnCliOrTakeServeUrl) s6
      in case bundleResult (bundleOnCliOrTakeServeUrl env) of
           Inl e \<Rightarrow> (Inl e, s7)
         | Inr (cleanupBundle, url) \<Rightarrow>
     (let s8 = emit (Settled PrepareServer) (emit (Invoke PrepareServer) s7)
      in case prepareServer env url of
           Inl e \<Rightarrow> (Inl e, s8)
         | Inr srv \<Rightarrow>
     (let s9 = emit (AddCleanupCallback (CloseServer srv)) s8;
          s10 = emit (AddCleanupCallback (CleanupBundle cleanupBundle)) s9;
          s11 = emit (Settled InternalOpenBrowser) s10
      in case internalOpenBrowser env of
           Inl e \<Rightarrow> (Inl e, s11)
         | Inr instance \<Rightarrow>
     (let s12 = emit (AddCleanupCallback (CloseBrowser instance)) s11;
          s13 = emit (Settled GetCompositionWithDimensionOverride)
                  (emit (Invoke GetCompositionWithDimensionOverride) s12)
      in case getCompositionWithDimensionOverride env instance srv url of
           Inl e \<Rightarrow> (Inl e, s13)
         | Inr res \<Rightarrow>
             (Inr \<lparr>urlOrBundle = url, server = srv, puppeteerInstance = instance,
                   resolution = res\<rparr>, s13))))))"

text \<open>Lines 240 to 251: the format decision.\<close>

definition decideFormat ::
  "Collaborators \<Rightarrow> JobOptions \<Rightarrow> Resources \<Rightarrow> StillImageFormat \<times> FormatSource" where
  "decideFormat env job res =
     determineFinalStillImageFormat (parsedCliImageFormat env)
       (getUserPreferredStillImageFormat env) None
       (getUserPassedOutputLocation env (argsAfterComposition (resolution res))
          (outputLocationFromUi job))
       False (imageFormatFromUi job)"

text \<open>Lines 253 to 259: the relative output location.\<close>

definition relativeOutputOf :: "Collaborators \<Rightarrow> JobOptions \<Rightarrow> Resources \<Rightarrow> string" where
  "relativeOutputOf env job res =
     getOutputLocation env (compositionId (resolution res)) (fst (decideFormat env job res))
       (argsAfterComposition (resolution res)) (outputLocationFromUi job)"

text \<open>The canonical absolute path that the overwrite check looks at.\<close>

definition canonicalOutput :: "Collaborators \<Rightarrow> JobOptions \<Rightarrow> Resources \<Rightarrow> abspath" where
  "canonicalOutput env job res = path_resolve (cwd env) (relativeOutputOf env job res)"

text \<open>Lines 240 to 270: format, output location, overwrite check, parent directory.\<close>

definition resolveOutput ::
  "Collaborators \<Rightarrow> JobOptions \<Rightarrow> Resources \<Rightarrow> state \<Rightarrow> (error + OutputLocation) \<times> state" where
  "resolveOutput env job res s =
     (let decision = decideFormat env job res;
          relativeOutput = relativeOutputOf env job res
      in case getAndValidateAbsoluteOutputFile env (files s) relativeOutput (overwrite job) of
           Inl e \<Rightarrow> (Inl e, s)
         | Inr absoluteOutput \<Rightarrow>
     (let existed = existsSync (files s) absoluteOutput;
          dir = path_join absoluteOutput ''..'';
          s1 = emit (MkdirSync dir) s
      in case mkdirSync_recursive (files s1) dir of
           Inl e \<Rightarrow> (Inl e, s1)
         | Inr fs' \<Rightarrow>
             (Inr \<lparr>imageFormat = fst decision, source = snd decision,
                   relativeOutputLocation = relativeOutput,
                   absoluteOutputLocation = absoluteOutput, exists = existed\<rparr>,
              s1\<lparr>files := fs'\<rparr>)))"

text \<open>Lines 272 to 320: the three facts, the first write of the rendering state, its report.\<close>

definition renderingStarted :: RenderingProgress where
  "renderingStarted =
     \<lparr>frames = 0, doneIn = None, totalFrames = 1, timeRemainingInMilliseconds = None\<rparr>"

definition renderingDone :: "int \<Rightarrow> RenderingProgress" where
  "renderingDone elapsed =
     \<lparr>frames = 1, doneIn = Some elapsed, totalFrames = 1, timeRemainingInMilliseconds = None\<rparr>"

definition announce ::
  "Collaborators \<Rightarrow> JobOptions \<Rightarrow> Resources \<Rightarrow> OutputLocation \<Rightarrow> state \<Rightarrow> state" where
  "announce env job res out s =
     (let isVerbose = isEqualOrBelowLogLevel env (logLevel job) LevelVerbose;
          comp = resolution res;
          s1 = emit (PrintFact ''Composition''
                 (factRight [Some (compositionId comp),
                             if isVerbose then Some (''('' @ reason comp @ '')'') else None])) s;
          s2 = emit (PrintFact ''Format''
                 (factRight [Some (formatString (imageFormat out)),
                             if isVerbose then Some (''('' @ sourceText env (source out) @ '')'')
                             else None])) s1;
          s3 = emit (PrintFact ''Output'' (relativeOutputLocation out)) s2;
          s4 = emit (WriteRendering renderingStarted)
                 (s3\<lparr>aggregate := (aggregate s3)\<lparr>rendering := Some renderingStarted\<rparr>\<rparr>)
      in updateRenderProgress env job False True False s4)"

text \<open>The arguments of the call at lines 322 to 353.\<close>

definition stillOptions :: "JobOptions \<Rightarrow> Resources \<Rightarrow> OutputLocation \<Rightarrow> RenderStillOptions" where
  "stillOptions job res out =
     \<lparr>still_composition = config (resolution res), still_frame = stillFrame job,
      still_output = absoluteOutputLocation out, still_serveUrl = urlOrBundle res,
      still_imageFormat = imageFormat out, still_overwrite = overwrite job,
      still_puppeteerInstance = puppeteerInstance res, still_server = server res,
      still_cancelSignal = cancelSignal job\<rparr>"

text \<open>
  Lines 322 to 371: the render, the second write of the rendering state, the summary line.
  \<open>dateNow env 0\<close> is \<^verbatim>\<open>renderStart\<close> (line 298).
\<close>

text \<open>
  Modelled from the spec: the renderer behind \<^verbatim>\<open>internalRenderStill\<close> is missing
  from the sources. Section 6: "renderStill(job) -> writes image bytes to the absolute
  output path". In \<open>renderStill\<close> a render that resolves leaves a file at
  \<^verbatim>\<open>output\<close>; one that rejects leaves the file system as it was.
\<close>

definition renderStill ::
  "Collaborators \<Rightarrow> JobOptions \<Rightarrow> Resources \<Rightarrow> OutputLocation \<Rightarrow> state
     \<Rightarrow> (error + unit) \<times> state" where
  "renderStill env job res out s =
     (let run = internalRenderStill env (stillOptions job res out);
          s1 = emit (Invoke InternalRenderStill) s;
          s2 = foldl (onDownload env job) s1 (downloadUpdates run);
          s3 = emit (Settled InternalRenderStill) s2
      in case renderResult run of
           Some e \<Rightarrow> (Inl e, s3)
         | None \<Rightarrow>
     (let s4 = s3\<lparr>files := (files s3)(absoluteOutputLocation out \<mapsto> File)\<rparr>;
          finished = renderingDone (dateNow env 1 - dateNow env 0);
          s5 = emit (WriteRendering finished)
                 (s4\<lparr>aggregate := (aggregate s4)\<lparr>rendering := Some finished\<rparr>\<rparr>);
          s6 = updateRenderProgress env job True True False s5;
          s7 = emit (LogInfo (padEnd (glyph (exists out)) (LABEL_WIDTH env) @ [32]
                       @ codeUnits (relativeOutputLocation out))) s6
      in (Inr (), s7)))"

text \<open>The state at line 113: the fresh aggregate, the file system as found, nothing done.\<close>

definition initialState :: "Collaborators \<Rightarrow> filesystem \<Rightarrow> state" where
  "initialState env fs =
     \<lparr>aggregate = initialAggregateRenderProgress env, files = fs, trace = [], evaluations = 0\<rparr>"

text \<open>The flow up to line 320, just before \<^verbatim>\<open>internalRenderStill\<close> is called.\<close>

definition beforeRender ::
  "Collaborators \<Rightarrow> JobOptions \<Rightarrow> filesystem
     \<Rightarrow> (error + Resources \<times> OutputLocation) \<times> state" where
  "beforeRender env job fs =
     (case acquireResources env job (initialState env fs) of
        (Inl e, s) \<Rightarrow> (Inl e, s)
      | (Inr res, s) \<Rightarrow>
          (case resolveOutput env job res s of
             (Inl e, s') \<Rightarrow> (Inl e, s')
           | (Inr out, s') \<Rightarrow> (Inr (res, out), announce env job res out s')))"

definition renderStillFlow ::
  "Collaborators \<Rightarrow> JobOptions \<Rightarrow> filesystem \<Rightarrow> (error + unit) \<times> state" where
  "renderStillFlow env job fs =
     (case beforeRender env job fs of
        (Inl e, s) \<Rightarrow> (Inl e, s)
      | (Inr (res, out), s) \<Rightarrow> renderStill env job res out s)"

subsection \<open>The cleanup registry\<close>

text \<open>
  Modelled from the spec: the registry behind \<^verbatim>\<open>addCleanupCallback\<close> is supplied
  by the caller and is missing from the sources. Section 4.3: "register(cb) appends to an
  ordered list. runAll() invokes callbacks in reverse registration order [...] and is
  idempotent: a second invocation performs no work and does not re-run callbacks. A
  callback that fails is logged and does not prevent remaining callbacks from running; the
  registry never rethrows." \<open>runAll\<close> returns the callbacks it has executed, in order,
  and those whose failure it has logged; \<open>throws\<close> tells which callbacks fail.
\<close>

record 'cb CleanupRegistry =
  callbacks :: "'cb list"
  released :: bool

definition emptyRegistry :: "'cb CleanupRegistry" where
  "emptyRegistry = \<lparr>callbacks = [], released = False\<rparr>"

definition register :: "'cb \<Rightarrow> 'cb CleanupRegistry \<Rightarrow> 'cb CleanupRegistry" where
  "register cb reg = reg\<lparr>callbacks := callbacks reg @ [cb]\<rparr>"

definition registerAll :: "'cb list \<Rightarrow> 'cb CleanupRegistry" where
  "registerAll cbs = foldl (\<lambda>reg cb. register cb reg) emptyRegistry cbs"

definition runAll ::
  "('cb \<Rightarrow> bool) \<Rightarrow> 'cb CleanupRegistry \<Rightarrow> ('cb list \<times> 'cb list) \<times> 'cb CleanupRegistry" where
  "runAll throws reg =
     (if released reg then (([], []), reg)
      else ((rev (callbacks reg), filter throws (rev (callbacks reg))), reg\<lparr>released := True\<rparr>))"

text \<open>\<open>n\<close> invocations in a row; the executed callbacks of all of them, in order.\<close>

fun runAllTimes :: "('cb \<Rightarrow> bool) \<Rightarrow> nat \<Rightarrow> 'cb CleanupRegistry \<Rightarrow> 'cb list \<times> 'cb CleanupRegistry" where
  "runAllTimes throws 0 reg = ([], reg)"
| "runAllTimes throws (Suc n) reg =
     (case runAll throws reg of
        ((executed, logged), reg') \<Rightarrow>
          (case runAllTimes throws n reg' of (later, reg'') \<Rightarrow> (executed @ later, reg'')))"

subsection \<open>Reading the log\<close>

text \<open>What a step appends to the log.\<close>

definition emitted :: "(state \<Rightarrow> state) \<Rightarrow> state \<Rightarrow> event list" where
  "emitted f s = drop (length (trace s)) (trace (f s))"

text \<open>The calls of the observer in a log.\<close>

fun observerEvents :: "event list \<Rightarrow> event list" where
  "observerEvents [] = []"
| "observerEvents (OnProgress m v a # t) = OnProgress m v a # observerEvents t"
| "observerEvents (_ # t) = observerEvents t"

text \<open>
  The two places where the flow hands the cancellation signal on, for comparing runs:
  \<open>withSignal c\<close> is the environment in which the renderer is handed the signal \<open>c\<close>
  whatever the flow passes, and \<open>relabel c\<close> puts \<open>c\<close> into the logged creation of the
  console output.
\<close>

definition withSignal :: "bool option \<Rightarrow> Collaborators \<Rightarrow> Collaborators" where
  "withSignal c env =
     env\<lparr>internalRenderStill :=
           (\<lambda>options. internalRenderStill env (options\<lparr>still_cancelSignal := c\<rparr>))\<rparr>"

fun setSignal :: "bool option \<Rightarrow> event \<Rightarrow> event" where
  "setSignal c (CreateOverwriteableCliOutput quiet signal updatesDontOverwrite indented) =
     CreateOverwriteableCliOutput quiet c updatesDontOverwrite indented"
| "setSignal c e = e"

definition relabel :: "bool option \<Rightarrow> state \<Rightarrow> state" where
  "relabel c s = s\<lparr>trace := map (setSignal c) (trace s)\<rparr>"

fun jobCleanups :: "event list \<Rightarrow> CleanupCallback list" where
  "jobCleanups [] = []"
| "jobCleanups (AddCleanupCallback cb # t) = cb # jobCleanups t"
| "jobCleanups (_ # t) = jobCleanups t"

fun globalCleanups :: "event list \<Rightarrow> CleanupCallback list" where
  "globalCleanups [] = []"
| "globalCleanups (RegisterCleanupJob cb # t) = cb # globalCleanups t"
| "globalCleanups (_ # t) = globalCleanups t"

fun renderingWrites :: "event list \<Rightarrow> RenderingProgress list" where
  "renderingWrites [] = []"
| "renderingWrites (WriteRendering r # t) = r # renderingWrites t"
| "renderingWrites (_ # t) = renderingWrites t"

fun stagesExecuted :: "event list \<Rightarrow> stage list" where
  "stagesExecuted [] = []"
| "stagesExecuted (Invoke st # t) = st # stagesExecuted t"
| "stagesExecuted (_ # t) = stagesExecuted t"

fun mkdirCalls :: "event list \<Rightarrow> abspath list" where
  "mkdirCalls [] = []"
| "mkdirCalls (MkdirSync d # t) = d # mkdirCalls t"
| "mkdirCalls (_ # t) = mkdirCalls t"

fun stageEvents :: "event list \<Rightarrow> event list" where
  "stageEvents [] = []"
| "stageEvents (Invoke st # t) = Invoke st # stageEvents t"
| "stageEvents (Settled st # t) = Settled st # stageEvents t"
| "stageEvents (_ # t) = stageEvents t"

fun summaryLines :: "event list \<Rightarrow> nat list list" where
  "summaryLines [] = []"
| "summaryLines (LogInfo line # t) = line # summaryLines t"
| "summaryLines (_ # t) = summaryLines t"

fun progressCalls :: "BundleCallback list \<Rightarrow> nat" where
  "progressCalls [] = 0"
| "progressCalls (OnProgressCall b c # cbs) = Suc (progressCalls cbs)"
| "progressCalls (_ # cbs) = progressCalls cbs"

fun directoriesDeleted :: "BundleCallback list \<Rightarrow> CleanupCallback list" where
  "directoriesDeleted [] = []"
| "directoriesDeleted (OnDirectoryCreated dir # cbs) = DeleteDirectory dir # directoriesDeleted cbs"
| "directoriesDeleted (_ # cbs) = directoriesDeleted cbs"

text \<open>
  Strictly sequential stages: a stage is invoked only while no other is running, and the
  stage that settles is the one running.
\<close>

fun strictlySequential :: "stage option \<Rightarrow> event list \<Rightarrow> bool" where
  "strictlySequential running [] = True"
| "strictlySequential running (Invoke st # t) =
     (running = None \<and> strictlySequential (Some st) t)"
| "strictlySequential running (Settled st # t) =
     (running = Some st \<and> strictlySequential None t)"
| "strictlySequential running (_ # t) = strictlySequential running t"

text \<open>The order in which the flow invokes and awaits its collaborators.\<close>

definition stageOrder :: "event list" where
  "stageOrder =
     [Invoke InternalEnsureBrowser, Settled InternalEnsureBrowser,
      Invoke InternalOpenBrowser,
      Invoke BundleOnCliOrTakeServeUrl, Settled BundleOnCliOrTakeServeUrl,
      Invoke PrepareServer, Settled PrepareServer,
      Settled InternalOpenBrowser,
      Invoke GetCompositionWithDimensionOverride, Settled GetCompositionWithDimensionOverride,
      Invoke InternalRenderStill, Settled InternalRenderStill]"

text \<open>The rendering-state properties, over the list of writes of one run.\<close>

definition framesMonotone :: "RenderingProgress list \<Rightarrow> bool" where
  "framesMonotone ws = sorted (map frames ws)"

definition totalFramesAlwaysOne :: "RenderingProgress list \<Rightarrow> bool" where
  "totalFramesAlwaysOne ws = list_all (\<lambda>r. totalFrames r = 1) ws"

definition doneInIffComplete :: "RenderingProgress list \<Rightarrow> bool" where
  "doneInIffComplete ws = list_all (\<lambda>r. (doneIn r \<noteq> None) = (frames r = totalFrames r)) ws"

fun completions :: "RenderingProgress list \<Rightarrow> nat" where
  "completions (a # b # ws) =
     (if frames a = 0 \<and> frames b = totalFrames b \<and> frames b \<noteq> 0 then 1 else 0)
       + completions (b # ws)"
| "completions _ = 0"

definition doneInSettings :: "RenderingProgress list \<Rightarrow> nat" where
  "doneInSettings ws = length (filter (\<lambda>r. doneIn r \<noteq> None) ws)"

subsection \<open>A concrete run\<close>

text \<open>
  A run in which every collaborator succeeds: composition "MyComp", frame 0, no output
  path given, no format chosen anywhere; the renderer rejects when it is handed a
  cancelled signal. The variants below change one thing each.
\<close>

definition demoEnv :: Collaborators where
  "demoEnv =
     \<lparr>isEqualOrBelowLogLevel = (\<lambda>current level. current = LevelTrace \<or> current = level),
      shouldUseNonOverlayingLogger = (\<lambda>level. level = LevelTrace \<or> level = LevelVerbose),
      quietFlagProvided = False,
      initialAggregateRenderProgress =
        \<lparr>rendering = None, bundling = 0, copyingState = 0, downloads = []\<rparr>,
      makeRenderingAndStitchingProgress =
        (\<lambda>n prog parallel.
           \<lparr>reportOutput = (case rendering prog of None \<Rightarrow> ''[bundling]''
                            | Some r \<Rightarrow> if frames r = totalFrames r then ''[done]''
                                       else ''[rendering]''),
            reportProgress = (case rendering prog of None \<Rightarrow> 0 | Some r \<Rightarrow> of_nat (frames r)),
            reportMessage = (case rendering prog of None \<Rightarrow> ''Bundling''
                             | Some r \<Rightarrow> if frames r = totalFrames r then ''Rendered''
                                        else ''Rendering'')\<rparr>),
      internalEnsureBrowser = None,
      internalOpenBrowser = Inr 2,
      bundleOnCliOrTakeServeUrl =
        \<lparr>bundleCallbacks = [OnDirectoryCreated ''/tmp/bundle'', OnProgressCall 100 0],
         bundleResult = Inr (3, ''http://localhost:3000'')\<rparr>,
      prepareServer = (\<lambda>url. Inr 1),
      getCompositionWithDimensionOverride =
        (\<lambda>instance srv url.
           Inr \<lparr>compositionId = ''MyComp'', config = 0, reason = ''Passed as argument'',
                argsAfterComposition = []\<rparr>),
      parsedCliImageFormat = None,
      getUserPreferredStillImageFormat = None,
      getUserPassedOutputLocation =
        (\<lambda>args fromUi. case fromUi of Some location \<Rightarrow> Some location
                        | None \<Rightarrow> (case args of [] \<Rightarrow> None | a # _ \<Rightarrow> Some a)),
      sourceText = (\<lambda>src. ''tier''),
      cwd = [''home'', ''project''],
      dateNow = (\<lambda>n. 1000 + 250 * int n),
      internalRenderStill =
        (\<lambda>options.
           \<lparr>downloadUpdates = [([(''asset'', 50)], False, True)],
            renderResult = (if still_cancelSignal options = Some True
                            then Some CancellationError else None)\<rparr>),
      LABEL_WIDTH = 3\<rparr>"

definition demoJob :: JobOptions where
  "demoJob =
     \<lparr>fullEntryPoint = ''src/index.ts'', entryPointReason = ''argument passed'',
      overwrite = True, stillFrame = 0, imageFormatFromUi = None, logLevel = LevelInfo,
      indent = False, cancelSignal = None, outputLocationFromUi = None\<rparr>"

definition cancelledJob :: JobOptions where
  "cancelledJob = demoJob\<lparr>cancelSignal := Some True\<rparr>"

definition keepingJob :: JobOptions where
  "keepingJob = demoJob\<lparr>overwrite := False\<rparr>"

definition failingRenderEnv :: Collaborators where
  "failingRenderEnv =
     demoEnv\<lparr>internalRenderStill := (\<lambda>options. \<lparr>downloadUpdates = [], renderResult = Some RenderError\<rparr>)\<rparr>"

text \<open>A renderer that pays no attention to the signal.\<close>

definition obliviousEnv :: Collaborators where
  "obliviousEnv =
     demoEnv\<lparr>internalRenderStill := (\<lambda>options. \<lparr>downloadUpdates = [], renderResult = None\<rparr>)\<rparr>"

text \<open>What the demo run acquires and resolves.\<close>

definition demoResources :: Resources where
  "demoResources =
     \<lparr>urlOrBundle = ''http://localhost:3000'', server = 1, puppeteerInstance = 2,
      resolution = \<lparr>compositionId = ''MyComp'', config = 0, reason = ''Passed as argument'',
                    argsAfterComposition = []\<rparr>\<rparr>"

definition demoOutput :: OutputLocation where
  "demoOutput =
     \<lparr>imageFormat = Png, source = BuiltInFallback, relativeOutputLocation = ''MyComp.png'',
      absoluteOutputLocation = [''home'', ''project'', ''MyComp.png''], exists = False\<rparr>"

definition emptyDisk :: filesystem where
  "emptyDisk = Map.empty"

definition usedDisk :: filesystem where
  "usedDisk = [[''home''] \<mapsto> Directory, [''home'', ''project''] \<mapsto> Directory,
               [''home'', ''project'', ''MyComp.png''] \<mapsto> File]"

text \<open>A reporter whose report tells how often it has been called before.\<close>

definition countingEnv :: Collaborators where
  "countingEnv =
     demoEnv\<lparr>makeRenderingAndStitchingProgress :=
               (\<lambda>n prog parallel.
                  \<lparr>reportOutput = replicate n CHR ''#'', reportProgress = of_nat n,
                   reportMessage = replicate n CHR ''.''\<rparr>)\<rparr>"

text \<open>A state in the middle of a run: half bundled, one download, two reports made.\<close>

definition busyState :: state where
  "busyState =
     \<lparr>aggregate = \<lparr>rendering = Some renderingStarted, bundling = 50, copyingState = 7,
                    downloads = [(''asset'', 50)]\<rparr>,
      files = emptyDisk,
      trace = [Invoke InternalEnsureBrowser],
      evaluations = 2\<rparr>"

section \<open>Properties\<close>

subsection \<open>The log and the file system under the reporting steps\<close>

lemma trace_emit [simp]: "trace (emit e s) = trace s @ [e]"
  by (simp add: emit_def)

lemma files_emit [simp]: "files (emit e s) = files s"
  by (simp add: emit_def)

lemma aggregate_emit [simp]: "aggregate (emit e s) = aggregate s"
  by (simp add: emit_def)

lemma evaluations_emit [simp]: "evaluations (emit e s) = evaluations s"
  by (simp add: emit_def)

lemma evaluations_updateRenderProgress [simp]:
  "evaluations (updateRenderProgress env job nl p enc s) = Suc (evaluations s)"
  by (simp add: updateRenderProgress_def Let_def)

lemma trace_updateRenderProgress:
  "trace (updateRenderProgress env job nl p enc s) =
     trace s
       @ (if p then [RenderProgressUpdate
                       (if shouldUseNonOverlayingLogger env (logLevel job)
                        then reportMessage
                               (makeRenderingAndStitchingProgress env (evaluations s) (aggregate s) enc)
                        else reportOutput
                               (makeRenderingAndStitchingProgress env (evaluations s) (aggregate s) enc))
                       nl]
          else [])
       @ [OnProgress
            (reportMessage (makeRenderingAndStitchingProgress env (evaluations s) (aggregate s) enc))
            (reportProgress (makeRenderingAndStitchingProgress env (evaluations s) (aggregate s) enc))
            (aggregate s)]"
  by (simp add: updateRenderProgress_def Let_def)

lemma files_updateRenderProgress [simp]:
  "files (updateRenderProgress env job nl p enc s) = files s"
  by (simp add: updateRenderProgress_def Let_def)

lemma aggregate_updateRenderProgress [simp]:
  "aggregate (updateRenderProgress env job nl p enc s) = aggregate s"
  by (simp add: updateRenderProgress_def Let_def)

lemma files_bundleCallbacks [simp]:
  "files (foldl (bundleCallback env job) s cbs) = files s"
proof (induction cbs arbitrary: s)
  case Nil
  show ?case by simp
next
  case (Cons cb cbs)
  show ?case by (cases cb) (simp_all add: Cons.IH)
qed

lemma files_onDownloads [simp]:
  "files (foldl (onDownload env job) s ups) = files s"
proof (induction ups arbitrary: s)
  case Nil
  show ?case by simp
next
  case (Cons u ups)
  show ?case by (cases u) (simp add: Cons.IH)
qed

lemma jobCleanups_append [simp]: "jobCleanups (t @ u) = jobCleanups t @ jobCleanups u"
  by (induction t rule: jobCleanups.induct) simp_all

lemma jobCleanups_bundleCallbacks [simp]:
  "jobCleanups (trace (foldl (bundleCallback env job) s cbs)) = jobCleanups (trace s)"
proof (induction cbs arbitrary: s)
  case Nil
  show ?case by simp
next
  case (Cons cb cbs)
  show ?case by (cases cb) (simp_all add: Cons.IH trace_updateRenderProgress)
qed

lemma jobCleanups_onDownloads [simp]:
  "jobCleanups (trace (foldl (onDownload env job) s ups)) = jobCleanups (trace s)"
proof (induction ups arbitrary: s)
  case Nil
  show ?case by simp
next
  case (Cons u ups)
  show ?case by (cases u) (simp add: Cons.IH trace_updateRenderProgress)
qed

lemma globalCleanups_append [simp]: "globalCleanups (t @ u) = globalCleanups t @ globalCleanups u"
  by (induction t rule: globalCleanups.induct) simp_all

lemma globalCleanups_bundleCallbacks [simp]:
  "globalCleanups (trace (foldl (bundleCallback env job) s cbs)) =
     globalCleanups (trace s) @ directoriesDeleted cbs"
proof (induction cbs arbitrary: s)
  case Nil
  show ?case by simp
next
  case (Cons cb cbs)
  show ?case by (cases cb) (simp_all add: Cons.IH trace_updateRenderProgress)
qed

lemma globalCleanups_onDownloads [simp]:
  "globalCleanups (trace (foldl (onDownload env job) s ups)) = globalCleanups (trace s)"
proof (induction ups arbitrary: s)
  case Nil
  show ?case by simp
next
  case (Cons u ups)
  show ?case by (cases u) (simp add: Cons.IH trace_updateRenderProgress)
qed

lemma stagesExecuted_append [simp]: "stagesExecuted (t @ u) = stagesExecuted t @ stagesExecuted u"
  by (induction t rule: stagesExecuted.induct) simp_all

lemma stagesExecuted_bundleCallbacks [simp]:
  "stagesExecuted (trace (foldl (bundleCallback env job) s cbs)) = stagesExecuted (trace s)"
proof (induction cbs arbitrary: s)
  case Nil
  show ?case by simp
next
  case (Cons cb cbs)
  show ?case by (cases cb) (simp_all add: Cons.IH trace_updateRenderProgress)
qed

lemma stagesExecuted_onDownloads [simp]:
  "stagesExecuted (trace (foldl (onDownload env job) s ups)) = stagesExecuted (trace s)"
proof (induction ups arbitrary: s)
  case Nil
  show ?case by simp
next
  case (Cons u ups)
  show ?case by (cases u) (simp add: Cons.IH trace_updateRenderProgress)
qed

lemma renderingWrites_append [simp]:
  "renderingWrites (t @ u) = renderingWrites t @ renderingWrites u"
  by (induction t rule: renderingWrites.induct) simp_all

lemma renderingWrites_bundleCallbacks [simp]:
  "renderingWrites (trace (foldl (bundleCallback env job) s cbs)) = renderingWrites (trace s)"
proof (induction cbs arbitrary: s)
  case Nil
  show ?case by simp
next
  case (Cons cb cbs)
  show ?case by (cases cb) (simp_all add: Cons.IH trace_updateRenderProgress)
qed

lemma renderingWrites_onDownloads [simp]:
  "renderingWrites (trace (foldl (onDownload env job) s ups)) = renderingWrites (trace s)"
proof (induction ups arbitrary: s)
  case Nil
  show ?case by simp
next
  case (Cons u ups)
  show ?case by (cases u) (simp add: Cons.IH trace_updateRenderProgress)
qed

lemma stageEvents_append [simp]: "stageEvents (t @ u) = stageEvents t @ stageEvents u"
  by (induction t rule: stageEvents.induct) simp_all

lemma stageEvents_bundleCallbacks [simp]:
  "stageEvents (trace (foldl (bundleCallback env job) s cbs)) = stageEvents (trace s)"
proof (induction cbs arbitrary: s)
  case Nil
  show ?case by simp
next
  case (Cons cb cbs)
  show ?case by (cases cb) (simp_all add: Cons.IH trace_updateRenderProgress)
qed

lemma stageEvents_onDownloads [simp]:
  "stageEvents (trace (foldl (onDownload env job) s ups)) = stageEvents (trace s)"
proof (induction ups arbitrary: s)
  case Nil
  show ?case by simp
next
  case (Cons u ups)
  show ?case by (cases u) (simp add: Cons.IH trace_updateRenderProgress)
qed

lemma mkdirCalls_append [simp]: "mkdirCalls (t @ u) = mkdirCalls t @ mkdirCalls u"
  by (induction t rule: mkdirCalls.induct) simp_all

lemma mkdirCalls_bundleCallbacks [simp]:
  "mkdirCalls (trace (foldl (bundleCallback env job) s cbs)) = mkdirCalls (trace s)"
proof (induction cbs arbitrary: s)
  case Nil
  show ?case by simp
next
  case (Cons cb cbs)
  show ?case by (cases cb) (simp_all add: Cons.IH trace_updateRenderProgress)
qed

lemma mkdirCalls_onDownloads [simp]:
  "mkdirCalls (trace (foldl (onDownload env job) s ups)) = mkdirCalls (trace s)"
proof (induction ups arbitrary: s)
  case Nil
  show ?case by simp
next
  case (Cons u ups)
  show ?case by (cases u) (simp add: Cons.IH trace_updateRenderProgress)
qed

lemma summaryLines_append [simp]: "summaryLines (t @ u) = summaryLines t @ summaryLines u"
  by (induction t rule: summaryLines.induct) simp_all

lemma summaryLines_bundleCallbacks [simp]:
  "summaryLines (trace (foldl (bundleCallback env job) s cbs)) = summaryLines (trace s)"
proof (induction cbs arbitrary: s)
  case Nil
  show ?case by simp
next
  case (Cons cb cbs)
  show ?case by (cases cb) (simp_all add: Cons.IH trace_updateRenderProgress)
qed

lemma summaryLines_onDownloads [simp]:
  "summaryLines (trace (foldl (onDownload env job) s ups)) = summaryLines (trace s)"
proof (induction ups arbitrary: s)
  case Nil
  show ?case by simp
next
  case (Cons u ups)
  show ?case by (cases u) (simp add: Cons.IH trace_updateRenderProgress)
qed

lemma observerEvents_append [simp]:
  "observerEvents (t @ u) = observerEvents t @ observerEvents u"
  by (induction t rule: observerEvents.induct) simp_all

lemma jobCleanups_updateRenderProgress [simp]:
  "jobCleanups (trace (updateRenderProgress env job nl p enc s)) = jobCleanups (trace s)"
  by (simp add: trace_updateRenderProgress)

lemma globalCleanups_updateRenderProgress [simp]:
  "globalCleanups (trace (updateRenderProgress env job nl p enc s)) = globalCleanups (trace s)"
  by (simp add: trace_updateRenderProgress)

lemma stagesExecuted_updateRenderProgress [simp]:
  "stagesExecuted (trace (updateRenderProgress env job nl p enc s)) = stagesExecuted (trace s)"
  by (simp add: trace_updateRenderProgress)

lemma renderingWrites_updateRenderProgress [simp]:
  "renderingWrites (trace (updateRenderProgress env job nl p enc s)) = renderingWrites (trace s)"
  by (simp add: trace_updateRenderProgress)

lemma stageEvents_updateRenderProgress [simp]:
  "stageEvents (trace (updateRenderProgress env job nl p enc s)) = stageEvents (trace s)"
  by (simp add: trace_updateRenderProgress)

lemma mkdirCalls_updateRenderProgress [simp]:
  "mkdirCalls (trace (updateRenderProgress env job nl p enc s)) = mkdirCalls (trace s)"
  by (simp add: trace_updateRenderProgress)

lemma summaryLines_updateRenderProgress [simp]:
  "summaryLines (trace (updateRenderProgress env job nl p enc s)) = summaryLines (trace s)"
  by (simp add: trace_updateRenderProgress)

lemma observerEvents_updateRenderProgress [simp]:
  "length (observerEvents (trace (updateRenderProgress env job nl p enc s)))
     = Suc (length (observerEvents (trace s)))"
  by (simp add: trace_updateRenderProgress)

lemma evaluations_bundleCallbacks [simp]:
  "evaluations (foldl (bundleCallback env job) s cbs) = evaluations s + progressCalls cbs"
proof (induction cbs arbitrary: s)
  case Nil
  show ?case by simp
next
  case (Cons cb cbs)
  show ?case by (cases cb) (simp_all add: Cons.IH)
qed

lemma observerEvents_bundleCallbacks [simp]:
  "length (observerEvents (trace (foldl (bundleCallback env job) s cbs)))
     = length (observerEvents (trace s)) + progressCalls cbs"
proof (induction cbs arbitrary: s)
  case Nil
  show ?case by simp
next
  case (Cons cb cbs)
  show ?case by (cases cb) (simp_all add: Cons.IH trace_updateRenderProgress)
qed

lemma evaluations_onDownloads [simp]:
  "evaluations (foldl (onDownload env job) s ups) = evaluations s + length ups"
proof (induction ups arbitrary: s)
  case Nil
  show ?case by simp
next
  case (Cons u ups)
  show ?case by (cases u) (simp add: Cons.IH)
qed

lemma observerEvents_onDownloads [simp]:
  "length (observerEvents (trace (foldl (onDownload env job) s ups)))
     = length (observerEvents (trace s)) + length ups"
proof (induction ups arbitrary: s)
  case Nil
  show ?case by simp
next
  case (Cons u ups)
  show ?case by (cases u) (simp add: Cons.IH trace_updateRenderProgress)
qed

subsection \<open>The format decision\<close>

text \<open>
  C3. The still image format decision is a first-defined-wins merge over the fixed tier
  order: explicit caller/CLI override, then the configured project default, then the
  extension of an explicit output file name, then the built-in fallback. With the explicit
  override "png", the project default "jpeg" and the output file name "out.webp", the
  format is "png" and the recorded source is the explicit-override tier, whether the
  override comes from the command line or from the caller; without the higher tiers the
  same signals give "jpeg" and "webp".
\<close>

theorem format_decision_first_defined_wins:
  "determineFinalStillImageFormat cliFlag configImageFormat downloadName outName isLambda fromUi
     = firstDefined (formatTiers cliFlag configImageFormat outName fromUi) (Png, BuiltInFallback)
   \<and> determineFinalStillImageFormat (Some Png) (Some Jpeg) None (Some ''out.webp'') False None
       = (Png, ExplicitOverride)
   \<and> determineFinalStillImageFormat None (Some Jpeg) None (Some ''out.webp'') False (Some Png)
       = (Png, ExplicitOverride)
   \<and> determineFinalStillImageFormat None (Some Jpeg) None (Some ''out.webp'') False None
       = (Jpeg, ProjectDefault)
   \<and> determineFinalStillImageFormat None None None (Some ''out.webp'') False None
       = (Webp, OutputExtension)
   \<and> determineFinalStillImageFormat None None None None False None = (Png, BuiltInFallback)"
proof -
  have webp: "inferFromOutName (Some ''out.webp'') = Some Webp"
    by (simp add: inferFromOutName_def extname_def formatOfExtension_def)
  have general: "determineFinalStillImageFormat cliFlag configImageFormat downloadName outName
                   isLambda fromUi
                 = firstDefined (formatTiers cliFlag configImageFormat outName fromUi)
                     (Png, BuiltInFallback)"
    by (simp add: determineFinalStillImageFormat_def formatTiers_def explicitOverride_def
        split: option.splits)
  have none: "inferFromOutName None = None"
    by (simp add: inferFromOutName_def)
  show ?thesis
    by (simp add: general) (simp add: determineFinalStillImageFormat_def webp none)
qed

subsection \<open>The cleanup registry\<close>

lemma callbacks_registered: "callbacks (foldl (\<lambda>reg cb. register cb reg) reg cbs) = callbacks reg @ cbs"
  by (induction cbs arbitrary: reg) (simp_all add: register_def)

lemma released_registered: "released (foldl (\<lambda>reg cb. register cb reg) reg cbs) = released reg"
  by (induction cbs arbitrary: reg) (simp_all add: register_def)

lemma runAllTimes_released: "released reg \<Longrightarrow> runAllTimes throws n reg = ([], reg)"
  by (induction n) (simp_all add: runAll_def)

text \<open>
  C5. For every list of registered cleanup callbacks and every \<open>n \<ge> 1\<close>, \<open>n\<close> calls of
  \<open>runAll\<close> execute the registered callbacks once each, in reverse registration order;
  they leave what a single call leaves, and a further call executes nothing and logs
  nothing.
\<close>

theorem runAll_exactly_once:
  assumes "1 \<le> n"
  shows "fst (runAllTimes throws n (registerAll cbs)) = rev cbs
       \<and> runAllTimes throws n (registerAll cbs) = runAllTimes throws (Suc 0) (registerAll cbs)
       \<and> fst (runAll throws (snd (runAllTimes throws n (registerAll cbs)))) = ([], [])"
proof -
  obtain m where n: "n = Suc m"
    using assms by (cases n) auto
  have cbs: "callbacks (registerAll cbs) = cbs" and fresh: "\<not> released (registerAll cbs)"
    by (simp_all add: registerAll_def callbacks_registered released_registered emptyRegistry_def)
  have first: "runAll throws (registerAll cbs)
                 = ((rev cbs, filter throws (rev cbs)), (registerAll cbs)\<lparr>released := True\<rparr>)"
    by (simp add: runAll_def cbs fresh)
  have rest: "runAllTimes throws k ((registerAll cbs)\<lparr>released := True\<rparr>)
                = ([], (registerAll cbs)\<lparr>released := True\<rparr>)" for k
    by (rule runAllTimes_released) simp
  have many: "runAllTimes throws n (registerAll cbs)
                = (rev cbs, (registerAll cbs)\<lparr>released := True\<rparr>)"
    by (simp add: n first rest)
  have once: "runAllTimes throws (Suc 0) (registerAll cbs)
                = (rev cbs, (registerAll cbs)\<lparr>released := True\<rparr>)"
    by (simp add: first)
  show ?thesis
    unfolding many once by (simp add: runAll_def)
qed

theorem runAll_exactly_once_witness:
  "(1::nat) \<le> 3
   \<and> fst (runAllTimes (\<lambda>cb. cb = CloseServer 1) 3
            (registerAll [CloseServer 1, CleanupBundle 3, CloseBrowser 2]))
       = [CloseBrowser 2, CleanupBundle 3, CloseServer 1]"
proof -
  have h: "(1::nat) \<le> 3"
    by simp
  have "fst (runAllTimes (\<lambda>cb. cb = CloseServer 1) 3
               (registerAll [CloseServer 1, CleanupBundle 3, CloseBrowser 2]))
          = rev [CloseServer 1, CleanupBundle 3, CloseBrowser 2]"
    using runAll_exactly_once [OF h] by (rule conjunct1)
  then show ?thesis
    using h by simp
qed

subsection \<open>Running the flow\<close>

lemmas flow_defs = renderStillFlow_def beforeRender_def acquireResources_def resolveOutput_def
  announce_def renderStill_def initialState_def Let_def

text \<open>What the simplifier needs to run the flow on the concrete environments.\<close>

lemmas run_defs = flow_defs demoEnv_def demoJob_def cancelledJob_def keepingJob_def
  failingRenderEnv_def obliviousEnv_def demoResources_def demoOutput_def emptyDisk_def
  usedDisk_def getAndValidateAbsoluteOutputFile_def mkdirSync_recursive_def path_join_def
  path_resolve_def step_segment_def isAbsolute_def existsSync_def canonicalOutput_def
  relativeOutputOf_def getOutputLocation_def decideFormat_def
  determineFinalStillImageFormat_def inferFromOutName_def stillOptions_def
  parentChainExists_def padEnd_def glyph_def codeUnits_def doneInSettings_def
  renderingStarted_def renderingDone_def stageOrder_def eval_nat_numeral

lemma flow_evaluations:
  "evaluations (snd (renderStillFlow env job fs))
     = length (observerEvents (trace (snd (renderStillFlow env job fs))))"
  by (auto simp: flow_defs getAndValidateAbsoluteOutputFile_def
      split: option.splits sum.splits prod.splits if_splits)

subsection \<open>The progress report\<close>

text \<open>
  C6. An update of the progress evaluates the reporter once, on the aggregate as it is,
  and sends the console a text and the observer an event that are fields of that one
  report, the event with the very aggregate the report was computed from; this holds
  for every reporter, also one that would answer differently when asked again. The
  aggregate is left as it is. When the reporter is a function of its arguments, an
  update on any state with the same aggregate, and a second update in a row, emit the
  same events. Over a whole run of the flow the reporter is evaluated once for each call
  of the observer.
\<close>

theorem progress_report_one_snapshot:
  "emitted (updateRenderProgress env job newline printToConsole enc) s
     = (let report = makeRenderingAndStitchingProgress env (evaluations s) (aggregate s) enc
        in (if printToConsole
            then [RenderProgressUpdate
                    (if shouldUseNonOverlayingLogger env (logLevel job)
                     then reportMessage report else reportOutput report) newline]
            else [])
           @ [OnProgress (reportMessage report) (reportProgress report) (aggregate s)])
   \<and> evaluations (updateRenderProgress env job newline printToConsole enc s)
       = Suc (evaluations s)
   \<and> aggregate (updateRenderProgress env job newline printToConsole enc s) = aggregate s
   \<and> ((\<forall>n m. makeRenderingAndStitchingProgress env n = makeRenderingAndStitchingProgress env m)
        \<longrightarrow> (\<forall>s'. aggregate s' = aggregate s \<longrightarrow>
                   emitted (updateRenderProgress env job newline printToConsole enc) s'
                     = emitted (updateRenderProgress env job newline printToConsole enc) s)
          \<and> emitted (updateRenderProgress env job newline printToConsole enc)
               (updateRenderProgress env job newline printToConsole enc s)
              = emitted (updateRenderProgress env job newline printToConsole enc) s)
   \<and> evaluations (snd (renderStillFlow env job fs))
       = length (observerEvents (trace (snd (renderStillFlow env job fs))))"
proof -
  have events: "emitted (updateRenderProgress env job newline printToConsole enc) t
     = (let report = makeRenderingAndStitchingProgress env (evaluations t) (aggregate t) enc
        in (if printToConsole
            then [RenderProgressUpdate
                    (if shouldUseNonOverlayingLogger env (logLevel job)
                     then reportMessage report else reportOutput report) newline]
            else [])
           @ [OnProgress (reportMessage report) (reportProgress report) (aggregate t)])" for t
    by (simp add: emitted_def trace_updateRenderProgress Let_def)
  have repeated:
    "emitted (updateRenderProgress env job newline printToConsole enc) t
       = emitted (updateRenderProgress env job newline printToConsole enc) s"
    if pure: "\<forall>n m. makeRenderingAndStitchingProgress env n
                      = makeRenderingAndStitchingProgress env m"
      and same: "aggregate t = aggregate s" for t
  proof -
    from pure have "makeRenderingAndStitchingProgress env (evaluations t)
                      = makeRenderingAndStitchingProgress env (evaluations s)"
      by blast
    then show ?thesis
      by (simp add: events same)
  qed
  show ?thesis
    using events [of s] repeated flow_evaluations [of env job fs] by simp
qed

theorem progress_report_one_snapshot_witness:
  "emitted (updateRenderProgress countingEnv demoJob False True False) busyState
     = [RenderProgressUpdate ''##'' False, OnProgress ''..'' 2 (aggregate busyState)]
   \<and> evaluations (updateRenderProgress countingEnv demoJob False True False busyState) = 3
   \<and> (\<forall>n m. makeRenderingAndStitchingProgress demoEnv n
              = makeRenderingAndStitchingProgress demoEnv m)
   \<and> emitted (updateRenderProgress demoEnv demoJob True True False)
        (updateRenderProgress demoEnv demoJob True True False busyState)
       = emitted (updateRenderProgress demoEnv demoJob True True False) busyState
   \<and> emitted (updateRenderProgress demoEnv demoJob True True False) busyState
       = [RenderProgressUpdate ''[rendering]'' True,
          OnProgress ''Rendering'' 0 (aggregate busyState)]
   \<and> evaluations (snd (renderStillFlow countingEnv demoJob emptyDisk)) = 4
   \<and> emitted (updateRenderProgress countingEnv demoJob False True False)
        (updateRenderProgress countingEnv demoJob False True False busyState)
       \<noteq> emitted (updateRenderProgress countingEnv demoJob False True False) busyState"
proof -
  have pure: "\<forall>n m. makeRenderingAndStitchingProgress demoEnv n
                    = makeRenderingAndStitchingProgress demoEnv m"
    by (simp add: demoEnv_def)
  note counting = progress_report_one_snapshot
    [of countingEnv demoJob False True False busyState emptyDisk]
  note plain = progress_report_one_snapshot [of demoEnv demoJob True True False busyState]
  have first: "emitted (updateRenderProgress countingEnv demoJob False True False) busyState
                 = [RenderProgressUpdate ''##'' False, OnProgress ''..'' 2 (aggregate busyState)]"
    using conjunct1 [OF counting]
    by (simp add: countingEnv_def demoEnv_def demoJob_def busyState_def numeral_2_eq_2)
  have count: "evaluations (updateRenderProgress countingEnv demoJob False True False busyState) = 3"
    using conjunct1 [OF conjunct2 [OF counting]] by (simp add: busyState_def)
  have again: "emitted (updateRenderProgress demoEnv demoJob True True False)
                 (updateRenderProgress demoEnv demoJob True True False busyState)
               = emitted (updateRenderProgress demoEnv demoJob True True False) busyState"
    using plain pure by blast
  have shown: "emitted (updateRenderProgress demoEnv demoJob True True False) busyState
                = [RenderProgressUpdate ''[rendering]'' True,
                   OnProgress ''Rendering'' 0 (aggregate busyState)]"
    using conjunct1 [OF plain]
    by (simp add: demoEnv_def demoJob_def busyState_def renderingStarted_def)
  have calls: "length (observerEvents (trace (snd (renderStillFlow countingEnv demoJob emptyDisk))))
                 = 4"
    by (simp add: run_defs countingEnv_def)
  have whole: "evaluations (snd (renderStillFlow countingEnv demoJob emptyDisk)) = 4"
    using counting calls by simp
  have differs: "emitted (updateRenderProgress countingEnv demoJob False True False)
                   (updateRenderProgress countingEnv demoJob False True False busyState)
                 \<noteq> emitted (updateRenderProgress countingEnv demoJob False True False) busyState"
    by (simp add: emitted_def trace_updateRenderProgress countingEnv_def demoEnv_def
        demoJob_def busyState_def)
  show ?thesis
    using first count pure again shown whole differs by blast
qed

subsection \<open>The stages of the flow\<close>

text \<open>
  C10. On every run that reaches composition resolution, exactly three cleanup callbacks
  have been handed to the job's \<^verbatim>\<open>addCleanupCallback\<close>, in this order: close the
  server, clean the bundle up, close the browser; they stay the only ones to the end of the
  run. The deletions of the bundler's directories go to \<^verbatim>\<open>registerCleanupJob\<close>,
  one for each directory the bundler reports, and none of them is in the job's list.
\<close>

theorem job_cleanups_registered:
  assumes "GetCompositionWithDimensionOverride
             \<in> set (stagesExecuted (trace (snd (renderStillFlow env job fs))))"
  shows "(\<exists>srv cleanupBundle url instance.
            bundleResult (bundleOnCliOrTakeServeUrl env) = Inr (cleanupBundle, url)
          \<and> prepareServer env url = Inr srv
          \<and> internalOpenBrowser env = Inr instance
          \<and> jobCleanups (trace (snd (renderStillFlow env job fs)))
              = [CloseServer srv, CleanupBundle cleanupBundle, CloseBrowser instance])
       \<and> globalCleanups (trace (snd (renderStillFlow env job fs)))
           = directoriesDeleted (bundleCallbacks (bundleOnCliOrTakeServeUrl env))
       \<and> (\<forall>dir. DeleteDirectory dir \<notin> set (jobCleanups (trace (snd (renderStillFlow env job fs)))))"
  using assms
  by (auto simp: flow_defs getAndValidateAbsoluteOutputFile_def
      split: option.splits sum.splits prod.splits if_splits)

theorem job_cleanups_registered_witness:
  "GetCompositionWithDimensionOverride
     \<in> set (stagesExecuted (trace (snd (renderStillFlow demoEnv demoJob emptyDisk))))
   \<and> jobCleanups (trace (snd (renderStillFlow demoEnv demoJob emptyDisk)))
       = [CloseServer 1, CleanupBundle 3, CloseBrowser 2]
   \<and> globalCleanups (trace (snd (renderStillFlow demoEnv demoJob emptyDisk)))
       = [DeleteDirectory ''/tmp/bundle'']"
proof -
  have h: "GetCompositionWithDimensionOverride
             \<in> set (stagesExecuted (trace (snd (renderStillFlow demoEnv demoJob emptyDisk))))"
    by (simp add: run_defs)
  show ?thesis
    using h job_cleanups_registered [OF h]
    by (auto simp: demoEnv_def)
qed

lemma renderingWrites_flow:
  "(fst (renderStillFlow env job fs) = Inr ()
      \<longrightarrow> renderingWrites (trace (snd (renderStillFlow env job fs)))
           = [renderingStarted, renderingDone (dateNow env 1 - dateNow env 0)])
   \<and> (fst (renderStillFlow env job fs) \<noteq> Inr ()
      \<longrightarrow> renderingWrites (trace (snd (renderStillFlow env job fs))) = []
         \<or> renderingWrites (trace (snd (renderStillFlow env job fs))) = [renderingStarted])"
  by (auto simp: flow_defs getAndValidateAbsoluteOutputFile_def
      split: option.splits sum.splits prod.splits if_splits)

text \<open>
  C4 (amended). Over every execution of the flow, the writes of the aggregate's rendering
  state satisfy: \<open>frames\<close> never decreases; \<open>totalFrames\<close> is 1 in every write;
  \<open>doneIn\<close> is set in a write if and only if \<open>frames = totalFrames\<close> there; the step
  of \<open>frames\<close> from 0 to \<open>totalFrames\<close> and the setting of \<open>doneIn\<close> happen at most
  once. In an execution that completes there are exactly two writes, the start and the
  completion, and both happen exactly once; in an execution that fails there is no write
  or only the start, and neither happens.
\<close>

theorem rendering_state_writes:
  "framesMonotone (renderingWrites (trace (snd (renderStillFlow env job fs))))
   \<and> totalFramesAlwaysOne (renderingWrites (trace (snd (renderStillFlow env job fs))))
   \<and> doneInIffComplete (renderingWrites (trace (snd (renderStillFlow env job fs))))
   \<and> completions (renderingWrites (trace (snd (renderStillFlow env job fs)))) \<le> 1
   \<and> doneInSettings (renderingWrites (trace (snd (renderStillFlow env job fs)))) \<le> 1
   \<and> (fst (renderStillFlow env job fs) = Inr () \<longrightarrow>
        renderingWrites (trace (snd (renderStillFlow env job fs)))
          = [renderingStarted, renderingDone (dateNow env 1 - dateNow env 0)]
      \<and> completions (renderingWrites (trace (snd (renderStillFlow env job fs)))) = 1
      \<and> doneInSettings (renderingWrites (trace (snd (renderStillFlow env job fs)))) = 1)
   \<and> (fst (renderStillFlow env job fs) \<noteq> Inr () \<longrightarrow>
        (renderingWrites (trace (snd (renderStillFlow env job fs))) = []
         \<or> renderingWrites (trace (snd (renderStillFlow env job fs))) = [renderingStarted])
      \<and> completions (renderingWrites (trace (snd (renderStillFlow env job fs)))) = 0
      \<and> doneInSettings (renderingWrites (trace (snd (renderStillFlow env job fs)))) = 0)"
proof -
  let ?ws = "renderingWrites (trace (snd (renderStillFlow env job fs)))"
  let ?d = "dateNow env 1 - dateNow env 0"
  have success: "fst (renderStillFlow env job fs) = Inr () \<Longrightarrow>
                   ?ws = [renderingStarted, renderingDone ?d]"
    using renderingWrites_flow [of env job fs] by blast
  have failure: "fst (renderStillFlow env job fs) \<noteq> Inr () \<Longrightarrow>
                   ?ws = [] \<or> ?ws = [renderingStarted]"
    using renderingWrites_flow [of env job fs] by blast
  have shape: "?ws = [] \<or> ?ws = [renderingStarted] \<or> ?ws = [renderingStarted, renderingDone ?d]"
    using success failure by blast
  have all: "framesMonotone ws \<and> totalFramesAlwaysOne ws \<and> doneInIffComplete ws
             \<and> completions ws \<le> 1 \<and> doneInSettings ws \<le> 1"
    if "ws = [] \<or> ws = [renderingStarted] \<or> ws = [renderingStarted, renderingDone ?d]" for ws
    using that
    by (auto simp: framesMonotone_def totalFramesAlwaysOne_def doneInIffComplete_def
        doneInSettings_def renderingStarted_def renderingDone_def)
  have full: "completions [renderingStarted, renderingDone ?d] = 1
              \<and> doneInSettings [renderingStarted, renderingDone ?d] = 1"
    by (simp add: doneInSettings_def renderingStarted_def renderingDone_def)
  have none: "completions ws = 0 \<and> doneInSettings ws = 0"
    if "ws = [] \<or> ws = [renderingStarted]" for ws
    using that by (auto simp: doneInSettings_def renderingStarted_def)
  show ?thesis
  proof (cases "fst (renderStillFlow env job fs) = Inr ()")
    case True
    then show ?thesis
      using all [OF shape] success full by simp
  next
    case False
    then show ?thesis
      using all [OF shape] failure none by blast
  qed
qed

text \<open>
  When the renderer rejects, the flow ends with its error after the first write: the step
  to \<open>totalFrames\<close> and the setting of \<open>doneIn\<close> do not happen.
\<close>

theorem rendering_state_writes_counterexample:
  "fst (renderStillFlow failingRenderEnv demoJob emptyDisk) = Inl RenderError
   \<and> completions (renderingWrites (trace (snd (renderStillFlow failingRenderEnv demoJob emptyDisk)))) = 0
   \<and> doneInSettings (renderingWrites (trace (snd (renderStillFlow failingRenderEnv demoJob emptyDisk)))) = 0"
  by (simp add: run_defs)

theorem rendering_state_writes_witness:
  "fst (renderStillFlow demoEnv demoJob emptyDisk) = Inr ()
   \<and> renderingWrites (trace (snd (renderStillFlow demoEnv demoJob emptyDisk)))
       = [renderingStarted, renderingDone 250]
   \<and> completions (renderingWrites (trace (snd (renderStillFlow demoEnv demoJob emptyDisk)))) = 1
   \<and> doneInSettings (renderingWrites (trace (snd (renderStillFlow demoEnv demoJob emptyDisk)))) = 1
   \<and> fst (renderStillFlow demoEnv keepingJob usedDisk) \<noteq> Inr ()
   \<and> renderingWrites (trace (snd (renderStillFlow demoEnv keepingJob usedDisk))) = []
   \<and> fst (renderStillFlow obliviousEnv cancelledJob usedDisk) = Inr ()
   \<and> doneInSettings
        (renderingWrites (trace (snd (renderStillFlow obliviousEnv cancelledJob usedDisk)))) = 1"
proof -
  have h: "fst (renderStillFlow demoEnv demoJob emptyDisk) = Inr ()"
    by (simp add: run_defs)
  have clock: "dateNow demoEnv 1 - dateNow demoEnv 0 = 250"
    by (simp add: demoEnv_def)
  have f: "fst (renderStillFlow demoEnv keepingJob usedDisk) \<noteq> Inr ()"
    by (simp add: run_defs)
  have nostart: "renderingWrites (trace (snd (renderStillFlow demoEnv keepingJob usedDisk)))
                   \<noteq> [renderingStarted]"
    by (simp add: run_defs)
  have g: "fst (renderStillFlow obliviousEnv cancelledJob usedDisk) = Inr ()"
    by (simp add: run_defs)
  note ok = rendering_state_writes [of demoEnv demoJob emptyDisk]
  note refused = rendering_state_writes [of demoEnv keepingJob usedDisk]
  note other = rendering_state_writes [of obliviousEnv cancelledJob usedDisk]
  have writes: "renderingWrites (trace (snd (renderStillFlow demoEnv demoJob emptyDisk)))
                  = [renderingStarted, renderingDone 250]"
    using ok h clock by simp
  have once: "completions (renderingWrites (trace (snd (renderStillFlow demoEnv demoJob emptyDisk)))) = 1"
             "doneInSettings (renderingWrites (trace (snd (renderStillFlow demoEnv demoJob emptyDisk)))) = 1"
    using ok h by blast+
  have nowrite: "renderingWrites (trace (snd (renderStillFlow demoEnv keepingJob usedDisk))) = []"
    using refused f nostart by blast
  have second: "doneInSettings
        (renderingWrites (trace (snd (renderStillFlow obliviousEnv cancelledJob usedDisk)))) = 1"
    using other g by blast
  show ?thesis
    using h writes once f nowrite g second by blast
qed

lemma stageEvents_flow:
  "stageEvents (trace (snd (renderStillFlow env job fs))) \<in> set (prefixes stageOrder)
   \<and> (fst (renderStillFlow env job fs) = Inr ()
        \<longrightarrow> stageEvents (trace (snd (renderStillFlow env job fs))) = stageOrder)"
  by (auto simp: flow_defs stageOrder_def
      getAndValidateAbsoluteOutputFile_def
      split: option.splits sum.splits prod.splits if_splits)

text \<open>
  C7 (amended). The flow invokes and awaits its collaborators in one fixed order.
  \<^verbatim>\<open>internalEnsureBrowser\<close>, the bundler, \<^verbatim>\<open>prepareServer\<close>, the composition
  resolver and the renderer are each awaited before the next call is made.
  \<^verbatim>\<open>internalOpenBrowser\<close> is invoked before the bundler and awaited only after the
  server is prepared: opening the browser overlaps bundling and serving. A run that
  completes goes through the whole order, a failing run through a prefix of it.
\<close>

theorem stages_in_fixed_order:
  "prefix (stageEvents (trace (snd (renderStillFlow env job fs)))) stageOrder
   \<and> (fst (renderStillFlow env job fs) = Inr ()
        \<longrightarrow> stageEvents (trace (snd (renderStillFlow env job fs))) = stageOrder)"
  using stageEvents_flow [of env job fs] by (simp add: in_set_prefixes)

theorem stages_in_fixed_order_witness:
  "fst (renderStillFlow demoEnv demoJob emptyDisk) = Inr ()
   \<and> stageEvents (trace (snd (renderStillFlow demoEnv demoJob emptyDisk))) = stageOrder"
proof -
  have h: "fst (renderStillFlow demoEnv demoJob emptyDisk) = Inr ()"
    by (simp add: run_defs)
  show ?thesis
    using h stages_in_fixed_order [of demoEnv demoJob emptyDisk] by simp
qed

text \<open>
  In the run where everything succeeds the bundler is invoked while the browser is still
  being opened.
\<close>

theorem stages_strictly_sequential_counterexample:
  "fst (renderStillFlow demoEnv demoJob emptyDisk) = Inr ()
   \<and> \<not> strictlySequential None (trace (snd (renderStillFlow demoEnv demoJob emptyDisk)))"
  by (simp add: run_defs trace_updateRenderProgress)

text \<open>
  With a signal that is cancelled from the start and a renderer that honours it, the result
  is a cancellation error, and all six collaborators have been invoked before.
\<close>

theorem cancelled_token_counterexample:
  "cancelSignal cancelledJob = Some True
   \<and> fst (renderStillFlow demoEnv cancelledJob emptyDisk) = Inl CancellationError
   \<and> stagesExecuted (trace (snd (renderStillFlow demoEnv cancelledJob emptyDisk)))
       = [InternalEnsureBrowser, InternalOpenBrowser, BundleOnCliOrTakeServeUrl, PrepareServer,
          GetCompositionWithDimensionOverride, InternalRenderStill]"
  by (simp add: run_defs)

lemma prefix_trace_updateRenderProgress:
  "prefix t (trace s) \<Longrightarrow> prefix t (trace (updateRenderProgress env job nl p enc s))"
  by (auto simp: trace_updateRenderProgress)

lemma prefix_trace_bundleCallbacks:
  "prefix t (trace s) \<Longrightarrow> prefix t (trace (foldl (bundleCallback env job) s cbs))"
proof (induction cbs arbitrary: s)
  case Nil
  then show ?case by simp
next
  case (Cons cb cbs)
  show ?case
    by (cases cb) (auto intro!: Cons.IH simp: Cons.prems prefix_trace_updateRenderProgress)
qed

lemma prefix_trace_onDownloads:
  "prefix t (trace s) \<Longrightarrow> prefix t (trace (foldl (onDownload env job) s ups))"
proof (induction ups arbitrary: s)
  case Nil
  then show ?case by simp
next
  case (Cons u ups)
  show ?case
    by (cases u) (auto intro!: Cons.IH simp: Cons.prems prefix_trace_updateRenderProgress)
qed

lemma mkdirChain_error: "mkdirChain fs p segs = Inl e \<Longrightarrow> e = FileSystemError"
  by (induction segs arbitrary: fs p) (auto split: option.splits node.splits)

lemma mkdirSync_recursive_error: "mkdirSync_recursive fs dir = Inl e \<Longrightarrow> e = FileSystemError"
  unfolding mkdirSync_recursive_def by (rule mkdirChain_error)

lemma flow_starts_with_browser:
  "(\<exists>rest. stagesExecuted (trace (snd (renderStillFlow env job fs)))
              = InternalEnsureBrowser # rest)
   \<and> prefix [LogVerbose (''Entry point = '' @ fullEntryPoint job @ '' (''
                              @ entryPointReason job @ '')''),
              CreateOverwriteableCliOutput (quietFlagProvided env) (cancelSignal job)
                (shouldUseNonOverlayingLogger env (logLevel job)) (indent job),
              Invoke InternalEnsureBrowser]
        (trace (snd (renderStillFlow env job fs)))"
  by (auto simp: flow_defs getAndValidateAbsoluteOutputFile_def
        prefix_trace_bundleCallbacks prefix_trace_onDownloads prefix_trace_updateRenderProgress
      split: option.splits sum.splits prod.splits if_splits)

lemma flow_cancellation_from_collaborators:
  assumes "fst (renderStillFlow env job fs) = Inl CancellationError"
  shows "internalEnsureBrowser env = Some CancellationError
       \<or> internalOpenBrowser env = Inl CancellationError
       \<or> bundleResult (bundleOnCliOrTakeServeUrl env) = Inl CancellationError
       \<or> (\<exists>url. prepareServer env url = Inl CancellationError)
       \<or> (\<exists>instance srv url.
              getCompositionWithDimensionOverride env instance srv url = Inl CancellationError)
       \<or> (\<exists>options. renderResult (internalRenderStill env options) = Some CancellationError)"
  using assms
  by (auto simp: flow_defs getAndValidateAbsoluteOutputFile_def
      dest: mkdirSync_recursive_error
      split: option.splits sum.splits prod.splits if_splits)

text \<open>A run with a signal against the run without one.\<close>

lemma relabel_fields [simp]:
  "trace (relabel c s) = map (setSignal c) (trace s)"
  "files (relabel c s) = files s"
  "aggregate (relabel c s) = aggregate s"
  "evaluations (relabel c s) = evaluations s"
  by (simp_all add: relabel_def)

lemma relabel_emit:
  "relabel c (emit e s) = emit (setSignal c e) (relabel c s)"
  by (simp add: relabel_def emit_def)

lemma relabel_updates:
  "relabel c (s\<lparr>aggregate := a\<rparr>) = (relabel c s)\<lparr>aggregate := a\<rparr>"
  "relabel c (s\<lparr>files := d\<rparr>) = (relabel c s)\<lparr>files := d\<rparr>"
  "relabel c (s\<lparr>evaluations := n\<rparr>) = (relabel c s)\<lparr>evaluations := n\<rparr>"
  by (simp_all add: relabel_def)

lemma relabel_updateRenderProgress:
  "relabel c (updateRenderProgress env job nl p enc s)
     = updateRenderProgress env job nl p enc (relabel c s)"
  by (simp add: updateRenderProgress_def Let_def relabel_emit relabel_updates)

lemma relabel_bundleCallbacks:
  "relabel c (foldl (bundleCallback env job) s cbs)
     = foldl (bundleCallback env job) (relabel c s) cbs"
proof (induction cbs arbitrary: s)
  case Nil
  show ?case by simp
next
  case (Cons cb cbs)
  show ?case
    by (cases cb)
       (simp_all add: Cons.IH relabel_updateRenderProgress relabel_emit relabel_updates)
qed

lemma relabel_onDownloads:
  "relabel c (foldl (onDownload env job) s ups)
     = foldl (onDownload env job) (relabel c s) ups"
proof (induction ups arbitrary: s)
  case Nil
  show ?case by simp
next
  case (Cons u ups)
  show ?case
    by (cases u) (simp add: Cons.IH relabel_updateRenderProgress relabel_updates)
qed

lemma updateRenderProgress_signal:
  "updateRenderProgress (withSignal c env) (job\<lparr>cancelSignal := x\<rparr>) nl p enc s
     = updateRenderProgress env job nl p enc s"
  by (simp add: updateRenderProgress_def withSignal_def)

lemma bundleCallback_signal:
  "bundleCallback (withSignal c env) (job\<lparr>cancelSignal := x\<rparr>) = bundleCallback env job"
proof (intro ext)
  fix s cb
  show "bundleCallback (withSignal c env) (job\<lparr>cancelSignal := x\<rparr>) s cb
          = bundleCallback env job s cb"
    by (cases cb) (simp_all add: updateRenderProgress_signal)
qed

lemma onDownload_signal:
  "onDownload (withSignal c env) (job\<lparr>cancelSignal := x\<rparr>) = onDownload env job"
proof (intro ext)
  fix s u
  show "onDownload (withSignal c env) (job\<lparr>cancelSignal := x\<rparr>) s u = onDownload env job s u"
    by (cases u) (simp add: updateRenderProgress_signal)
qed

lemmas signal_simps = relabel_emit relabel_updates relabel_updateRenderProgress
  relabel_bundleCallbacks relabel_onDownloads updateRenderProgress_signal bundleCallback_signal
  onDownload_signal

lemma acquireResources_signal:
  "acquireResources env job (relabel (cancelSignal job) s)
     = map_prod id (relabel (cancelSignal job))
         (acquireResources (withSignal (cancelSignal job) env) (job\<lparr>cancelSignal := None\<rparr>) s)"
  unfolding acquireResources_def Let_def bundleCallback_signal
  by (auto simp: withSignal_def relabel_emit relabel_bundleCallbacks
      split: option.splits sum.splits prod.splits)

lemma resolveOutput_signal:
  "resolveOutput env job res (relabel (cancelSignal job) s)
     = map_prod id (relabel (cancelSignal job))
         (resolveOutput (withSignal (cancelSignal job) env) (job\<lparr>cancelSignal := None\<rparr>) res s)"
  by (auto simp: resolveOutput_def Let_def withSignal_def relabel_emit relabel_updates
        getAndValidateAbsoluteOutputFile_def relativeOutputOf_def decideFormat_def
        getOutputLocation_def
      split: sum.splits)

lemma announce_signal:
  "announce env job res out (relabel (cancelSignal job) s)
     = relabel (cancelSignal job)
         (announce (withSignal (cancelSignal job) env) (job\<lparr>cancelSignal := None\<rparr>) res out s)"
  unfolding announce_def Let_def updateRenderProgress_signal
  by (simp add: withSignal_def relabel_emit relabel_updates relabel_updateRenderProgress)

lemma aggregate_onDownloads:
  "aggregate (foldl (onDownload env job) s ups)
     = foldl (\<lambda>a u. a\<lparr>downloads := fst u\<rparr>) (aggregate s) ups"
proof (induction ups arbitrary: s)
  case Nil
  show ?case by simp
next
  case (Cons u ups)
  show ?case by (cases u) (simp add: Cons.IH)
qed

lemma renderStill_signal:
  "renderStill env job res out (relabel (cancelSignal job) s)
     = map_prod id (relabel (cancelSignal job))
         (renderStill (withSignal (cancelSignal job) env) (job\<lparr>cancelSignal := None\<rparr>) res out s)"
proof -
  have options: "(stillOptions (job\<lparr>cancelSignal := None\<rparr>) res out)
                   \<lparr>still_cancelSignal := cancelSignal job\<rparr>
                 = stillOptions job res out"
    by (simp add: stillOptions_def)
  have run: "internalRenderStill (withSignal (cancelSignal job) env)
               (stillOptions (job\<lparr>cancelSignal := None\<rparr>) res out)
             = internalRenderStill env (stillOptions job res out)"
    by (simp add: withSignal_def options)
  show ?thesis
    unfolding renderStill_def Let_def run onDownload_signal updateRenderProgress_signal
    by (auto simp: withSignal_def relabel_emit relabel_updates relabel_updateRenderProgress
          relabel_onDownloads aggregate_onDownloads
        split: option.splits)
qed

lemma initialState_signal:
  "initialState env fs = relabel c (initialState (withSignal c env) fs)"
  by (simp add: initialState_def relabel_def withSignal_def)

lemma renderStillFlow_signal:
  "renderStillFlow env job fs
     = map_prod id (relabel (cancelSignal job))
         (renderStillFlow (withSignal (cancelSignal job) env) (job\<lparr>cancelSignal := None\<rparr>) fs)"
proof -
  let ?c = "cancelSignal job"
  let ?env = "withSignal ?c env"
  let ?job = "job\<lparr>cancelSignal := None\<rparr>"
  have acq: "acquireResources env job (initialState env fs)
               = map_prod id (relabel ?c) (acquireResources ?env ?job (initialState ?env fs))"
    unfolding initialState_signal [of env fs ?c] by (rule acquireResources_signal)
  show ?thesis
    unfolding renderStillFlow_def beforeRender_def acq
    by (auto simp: resolveOutput_signal announce_signal renderStill_signal
        split: sum.splits prod.splits)
qed

text \<open>
  C2 (amended). If the cancellation signal is already cancelled when the flow starts, the
  flow still starts its stages, \<^verbatim>\<open>internalEnsureBrowser\<close> first. It runs exactly as
  it runs with no signal at all (same result, same file system, same aggregate, same log
  of calls) except in the two places where it hands the signal on: the creation of the
  console output and the options of \<^verbatim>\<open>internalRenderStill\<close>. So it has no
  cancellation check of its own, and its result is a cancellation error only if a
  collaborator raises one.
\<close>

theorem cancelled_token_not_consulted:
  assumes "cancelSignal job = Some True"
  shows "renderStillFlow env job fs
           = map_prod id (relabel (Some True))
               (renderStillFlow (withSignal (Some True) env) (job\<lparr>cancelSignal := None\<rparr>) fs)
       \<and> (\<exists>rest. stagesExecuted (trace (snd (renderStillFlow env job fs)))
                   = InternalEnsureBrowser # rest)
       \<and> prefix [LogVerbose (''Entry point = '' @ fullEntryPoint job @ '' (''
                                  @ entryPointReason job @ '')''),
                  CreateOverwriteableCliOutput (quietFlagProvided env) (Some True)
                    (shouldUseNonOverlayingLogger env (logLevel job)) (indent job),
                  Invoke InternalEnsureBrowser]
            (trace (snd (renderStillFlow env job fs)))
       \<and> (internalEnsureBrowser env \<noteq> Some CancellationError
            \<and> internalOpenBrowser env \<noteq> Inl CancellationError
            \<and> bundleResult (bundleOnCliOrTakeServeUrl env) \<noteq> Inl CancellationError
            \<and> (\<forall>url. prepareServer env url \<noteq> Inl CancellationError)
            \<and> (\<forall>instance srv url.
                   getCompositionWithDimensionOverride env instance srv url
                     \<noteq> Inl CancellationError)
            \<and> (\<forall>options. renderResult (internalRenderStill env options)
                     \<noteq> Some CancellationError)
            \<longrightarrow> fst (renderStillFlow env job fs) \<noteq> Inl CancellationError)"
proof -
  have same: "renderStillFlow env job fs
           = map_prod id (relabel (Some True))
               (renderStillFlow (withSignal (Some True) env) (job\<lparr>cancelSignal := None\<rparr>) fs)"
    using renderStillFlow_signal [of env job fs] by (simp add: assms)
  have start: "(\<exists>rest. stagesExecuted (trace (snd (renderStillFlow env job fs)))
                   = InternalEnsureBrowser # rest)
       \<and> prefix [LogVerbose (''Entry point = '' @ fullEntryPoint job @ '' (''
                                  @ entryPointReason job @ '')''),
                  CreateOverwriteableCliOutput (quietFlagProvided env) (Some True)
                    (shouldUseNonOverlayingLogger env (logLevel job)) (indent job),
                  Invoke InternalEnsureBrowser]
            (trace (snd (renderStillFlow env job fs)))"
    using flow_starts_with_browser [of env job fs] by (simp add: assms)
  show ?thesis
    using same start flow_cancellation_from_collaborators [of env job fs] by blast
qed

theorem cancelled_token_not_consulted_witness:
  "cancelSignal cancelledJob = Some True
   \<and> fst (renderStillFlow (withSignal (Some True) obliviousEnv)
            (cancelledJob\<lparr>cancelSignal := None\<rparr>) emptyDisk) = Inr ()
   \<and> fst (renderStillFlow obliviousEnv cancelledJob emptyDisk) = Inr ()
   \<and> (\<exists>rest. stagesExecuted (trace (snd (renderStillFlow obliviousEnv cancelledJob emptyDisk)))
                = InternalEnsureBrowser # rest)
   \<and> fst (renderStillFlow obliviousEnv cancelledJob emptyDisk) \<noteq> Inl CancellationError"
proof -
  have h: "cancelSignal cancelledJob = Some True"
    by (simp add: cancelledJob_def)
  have plain: "fst (renderStillFlow (withSignal (Some True) obliviousEnv)
                      (cancelledJob\<lparr>cancelSignal := None\<rparr>) emptyDisk) = Inr ()"
    by (simp add: run_defs withSignal_def)
  note inst = cancelled_token_not_consulted [OF h, of obliviousEnv emptyDisk]
  have completes: "fst (renderStillFlow obliviousEnv cancelledJob emptyDisk) = Inr ()"
    using plain by (simp add: conjunct1 [OF inst])
  have start: "\<exists>rest. stagesExecuted (trace (snd (renderStillFlow obliviousEnv cancelledJob emptyDisk)))
                  = InternalEnsureBrowser # rest"
    using inst by blast
  show ?thesis
    using h plain completes start by simp
qed

subsection \<open>The output location\<close>

lemma path_join_parent: "path_join p ''..'' = butlast p"
  by (simp add: path_join_def step_segment_def)

lemma mkdirChain_keeps:
  "mkdirChain fs p segs = Inr fs' \<Longrightarrow> fs r = Some Directory \<Longrightarrow> fs' r = Some Directory"
proof (induction segs arbitrary: fs p)
  case Nil
  then show ?case by simp
next
  case (Cons seg segs)
  then show ?case
    by (auto split: option.splits node.splits if_splits)
qed

lemma mkdirChain_creates:
  "mkdirChain fs p segs = Inr fs' \<Longrightarrow>
     list_all (\<lambda>q. q = [] \<or> fs' (p @ q) = Some Directory) (prefixes segs)"
proof (induction segs arbitrary: fs p)
  case Nil
  then show ?case by simp
next
  case (Cons seg segs)
  show ?case
  proof (cases "fs (p @ [seg])")
    case None
    with Cons.prems have step: "mkdirChain (fs(p @ [seg] \<mapsto> Directory)) (p @ [seg]) segs = Inr fs'"
      by simp
    have here: "fs' (p @ [seg]) = Some Directory"
      by (rule mkdirChain_keeps [OF step]) simp
    have "list_all (\<lambda>q. q = [] \<or> fs' ((p @ [seg]) @ q) = Some Directory) (prefixes segs)"
      by (rule Cons.IH [OF step])
    then show ?thesis
      using here by (auto simp: list.pred_map list_all_iff)
  next
    case (Some n)
    with Cons.prems have dir: "n = Directory"
      by (cases n) simp_all
    with Some Cons.prems have step: "mkdirChain fs (p @ [seg]) segs = Inr fs'"
      by simp
    have here: "fs' (p @ [seg]) = Some Directory"
      by (rule mkdirChain_keeps [OF step]) (simp add: Some dir)
    have "list_all (\<lambda>q. q = [] \<or> fs' ((p @ [seg]) @ q) = Some Directory) (prefixes segs)"
      by (rule Cons.IH [OF step])
    then show ?thesis
      using here by (auto simp: list.pred_map list_all_iff)
  qed
qed

lemma mkdirChain_present:
  "list_all (\<lambda>q. q = [] \<or> fs (p @ q) = Some Directory) (prefixes segs) \<Longrightarrow>
     mkdirChain fs p segs = Inr fs"
proof (induction segs arbitrary: p)
  case Nil
  show ?case by simp
next
  case (Cons seg segs)
  from Cons.prems have here: "fs (p @ [seg]) = Some Directory"
    by (auto simp: list.pred_map list_all_iff)
  from Cons.prems have "list_all (\<lambda>q. q = [] \<or> fs ((p @ [seg]) @ q) = Some Directory) (prefixes segs)"
    by (auto simp: list.pred_map list_all_iff)
  then have "mkdirChain fs (p @ [seg]) segs = Inr fs"
    by (rule Cons.IH)
  then show ?case
    by (simp add: here)
qed

lemma mkdirSync_creates_parents:
  "mkdirSync_recursive fs (butlast p) = Inr fs' \<Longrightarrow> parentChainExists fs' p"
  using mkdirChain_creates [of fs "[]" "butlast p" fs']
  by (simp add: mkdirSync_recursive_def parentChainExists_def)

lemma mkdirSync_when_present:
  "parentChainExists fs p \<Longrightarrow> mkdirSync_recursive fs (butlast p) = Inr fs"
  using mkdirChain_present [of fs "[]" "butlast p"]
  by (simp add: mkdirSync_recursive_def parentChainExists_def)

lemma parentChainExists_after_write:
  "parentChainExists fs p \<Longrightarrow> parentChainExists (fs(p \<mapsto> File)) p"
proof -
  assume chain: "parentChainExists fs p"
  have "q \<noteq> p" if "q \<in> set (prefixes (butlast p))" "q \<noteq> []" for q
  proof
    assume "q = p"
    with that have pre: "prefix p (butlast p)" and ne: "p \<noteq> []"
      by (simp_all add: in_set_prefixes)
    have "length p \<le> length (butlast p)"
      using pre by (rule prefix_length_le)
    with ne show False
      by (cases p rule: rev_cases) simp_all
  qed
  with chain show ?thesis
    by (auto simp: parentChainExists_def list_all_iff)
qed

lemma acquireResources_files [simp]:
  "files (snd (acquireResources env job s)) = files s"
  by (simp add: acquireResources_def Let_def split: option.splits sum.splits prod.splits)

lemma acquireResources_mkdirCalls [simp]:
  "mkdirCalls (trace (snd (acquireResources env job s))) = mkdirCalls (trace s)"
  by (simp add: acquireResources_def Let_def split: option.splits sum.splits prod.splits)

lemma acquireResources_no_render:
  "InternalRenderStill \<in> set (stagesExecuted (trace (snd (acquireResources env job s))))
     \<Longrightarrow> InternalRenderStill \<in> set (stagesExecuted (trace s))"
  by (auto simp: acquireResources_def Let_def split: option.splits sum.splits prod.splits)

lemma acquireResources_summaryLines [simp]:
  "summaryLines (trace (snd (acquireResources env job s))) = summaryLines (trace s)"
  by (simp add: acquireResources_def Let_def split: option.splits sum.splits prod.splits)

lemma acquireResources_result:
  "fst (acquireResources env job s) = fst (acquireResources env job s')"
  by (simp add: acquireResources_def Let_def split: option.splits sum.splits prod.splits)

text \<open>
  C1. If the flow gets as far as the output location, the canonical absolute output path
  exists and the overwrite flag is false, then the flow fails with
  \<open>OutputExistsError\<close> in the very state the acquisition of the resources has left:
  \<^verbatim>\<open>mkdirSync\<close> has not been called, \<^verbatim>\<open>internalRenderStill\<close> has not been
  invoked, and the file system is as it was found.
\<close>

theorem existing_output_is_kept:
  assumes "fst (acquireResources env job (initialState env fs)) = Inr res"
      and "existsSync fs (canonicalOutput env job res)"
      and "\<not> overwrite job"
  shows "renderStillFlow env job fs
           = (Inl OutputExistsError, snd (acquireResources env job (initialState env fs)))
       \<and> mkdirCalls (trace (snd (renderStillFlow env job fs))) = []
       \<and> InternalRenderStill \<notin> set (stagesExecuted (trace (snd (renderStillFlow env job fs))))
       \<and> files (snd (renderStillFlow env job fs)) = fs"
proof -
  obtain s where acq: "acquireResources env job (initialState env fs) = (Inr res, s)"
    using assms(1) by (cases "acquireResources env job (initialState env fs)") simp
  have s: "snd (acquireResources env job (initialState env fs)) = s"
    by (simp add: acq)
  have files: "files s = fs"
    by (simp add: s [symmetric] initialState_def)
  have check: "resolveOutput env job res s = (Inl OutputExistsError, s)"
    using assms(2,3)
    by (simp add: resolveOutput_def getAndValidateAbsoluteOutputFile_def canonicalOutput_def
        files Let_def)
  have flow: "renderStillFlow env job fs = (Inl OutputExistsError, s)"
    by (simp add: renderStillFlow_def beforeRender_def acq check)
  have nomkdir: "mkdirCalls (trace s) = []"
    by (simp add: s [symmetric] initialState_def)
  have norender: "InternalRenderStill \<notin> set (stagesExecuted (trace s))"
  proof
    assume "InternalRenderStill \<in> set (stagesExecuted (trace s))"
    then have "InternalRenderStill
                 \<in> set (stagesExecuted
                          (trace (snd (acquireResources env job (initialState env fs)))))"
      by (simp add: s)
    from acquireResources_no_render [OF this] show False
      by (simp add: initialState_def)
  qed
  show ?thesis
    by (simp add: flow s files nomkdir norender)
qed

theorem existing_output_is_kept_witness:
  "fst (acquireResources demoEnv keepingJob (initialState demoEnv usedDisk)) = Inr demoResources
   \<and> existsSync usedDisk (canonicalOutput demoEnv keepingJob demoResources)
   \<and> \<not> overwrite keepingJob
   \<and> fst (renderStillFlow demoEnv keepingJob usedDisk) = Inl OutputExistsError
   \<and> mkdirCalls (trace (snd (renderStillFlow demoEnv keepingJob usedDisk))) = []
   \<and> InternalRenderStill
        \<notin> set (stagesExecuted (trace (snd (renderStillFlow demoEnv keepingJob usedDisk))))"
proof -
  have h1: "fst (acquireResources demoEnv keepingJob (initialState demoEnv usedDisk))
              = Inr demoResources"
    by (simp add: run_defs)
  have h2: "existsSync usedDisk (canonicalOutput demoEnv keepingJob demoResources)"
    by (simp add: run_defs)
  have h3: "\<not> overwrite keepingJob"
    by (simp add: run_defs)
  note kept = existing_output_is_kept [OF h1 h2 h3]
  have result: "fst (renderStillFlow demoEnv keepingJob usedDisk) = Inl OutputExistsError"
    by (simp add: conjunct1 [OF kept])
  show ?thesis
    using h1 h2 h3 result kept by blast
qed

lemma announce_files [simp]: "files (announce env job res out s) = files s"
  by (simp add: announce_def Let_def)

lemma announce_mkdirCalls [simp]:
  "mkdirCalls (trace (announce env job res out s)) = mkdirCalls (trace s)"
  by (simp add: announce_def Let_def)

lemma announce_stagesExecuted [simp]:
  "stagesExecuted (trace (announce env job res out s)) = stagesExecuted (trace s)"
  by (simp add: announce_def Let_def)

lemma announce_summaryLines [simp]:
  "summaryLines (trace (announce env job res out s)) = summaryLines (trace s)"
  by (simp add: announce_def Let_def)

text \<open>What a successful output resolution returns and leaves.\<close>

lemma resolveOutput_Inr:
  assumes "resolveOutput env job res s = (Inr out, s')"
  shows "out = \<lparr>imageFormat = fst (decideFormat env job res),
                 source = snd (decideFormat env job res),
                 relativeOutputLocation = relativeOutputOf env job res,
                 absoluteOutputLocation = canonicalOutput env job res,
                 exists = existsSync (files s) (canonicalOutput env job res)\<rparr>"
    and "mkdirSync_recursive (files s) (butlast (canonicalOutput env job res)) = Inr (files s')"
    and "trace s' = trace s @ [MkdirSync (butlast (canonicalOutput env job res))]"
    and "aggregate s' = aggregate s"
    and "existsSync (files s) (canonicalOutput env job res) \<longrightarrow> overwrite job"
  using assms
  by (auto simp: resolveOutput_def getAndValidateAbsoluteOutputFile_def canonicalOutput_def
        path_join_parent Let_def
      split: sum.splits if_splits)

text \<open>
  C9. Whenever the flow gets to the render, so whenever the output path has been accepted
  and \<^verbatim>\<open>mkdirSync\<close> has returned, every directory from the root to the parent of
  the absolute output path exists in the state in which \<^verbatim>\<open>internalRenderStill\<close> is
  about to be invoked; \<^verbatim>\<open>mkdirSync\<close> has been called once, on that parent. On a
  file system where these directories are present already, the directory creation
  succeeds and changes nothing.
\<close>

theorem parent_directories_before_render:
  assumes "fst (beforeRender env job fs) = Inr (res, out)"
  shows "parentChainExists (files (snd (beforeRender env job fs))) (absoluteOutputLocation out)
       \<and> absoluteOutputLocation out = canonicalOutput env job res
       \<and> mkdirCalls (trace (snd (beforeRender env job fs)))
           = [path_join (absoluteOutputLocation out) ''..'']
       \<and> InternalRenderStill \<notin> set (stagesExecuted (trace (snd (beforeRender env job fs))))
       \<and> renderStillFlow env job fs = renderStill env job res out (snd (beforeRender env job fs))
       \<and> (\<forall>disk p. parentChainExists disk p
             \<longrightarrow> mkdirSync_recursive disk (path_join p ''..'') = Inr disk)"
proof -
  let ?init = "initialState env fs"
  obtain sa where acq: "acquireResources env job ?init = (Inr res, sa)"
    using assms
    by (cases "acquireResources env job ?init")
       (auto simp: beforeRender_def split: sum.splits prod.splits)
  obtain sb where res: "resolveOutput env job res sa = (Inr out, sb)"
    using assms acq
    by (cases "resolveOutput env job res sa")
       (auto simp: beforeRender_def split: sum.splits prod.splits)
  have before: "beforeRender env job fs = (Inr (res, out), announce env job res out sb)"
    by (simp add: beforeRender_def acq res)
  have sa: "snd (acquireResources env job ?init) = sa"
    by (simp add: acq)
  have abs: "absoluteOutputLocation out = canonicalOutput env job res"
    by (simp add: resolveOutput_Inr(1) [OF res])
  have chain: "parentChainExists (files sb) (absoluteOutputLocation out)"
    unfolding abs by (rule mkdirSync_creates_parents [OF resolveOutput_Inr(2) [OF res]])
  have "mkdirCalls (trace sa) = []"
    by (simp add: sa [symmetric] initialState_def)
  then have calls: "mkdirCalls (trace sb) = [path_join (absoluteOutputLocation out) ''..'']"
    by (simp add: resolveOutput_Inr(3) [OF res] abs path_join_parent)
  have norender: "InternalRenderStill \<notin> set (stagesExecuted (trace sb))"
  proof
    assume "InternalRenderStill \<in> set (stagesExecuted (trace sb))"
    then have "InternalRenderStill
                 \<in> set (stagesExecuted (trace (snd (acquireResources env job ?init))))"
      by (simp add: resolveOutput_Inr(3) [OF res] sa)
    from acquireResources_no_render [OF this] show False
      by (simp add: initialState_def)
  qed
  have flow: "renderStillFlow env job fs = renderStill env job res out (announce env job res out sb)"
    by (simp add: renderStillFlow_def before)
  show ?thesis
    by (simp add: before chain abs [symmetric] calls norender flow)
       (simp add: path_join_parent mkdirSync_when_present)
qed

theorem parent_directories_before_render_witness:
  "fst (beforeRender demoEnv demoJob emptyDisk) = Inr (demoResources, demoOutput)
   \<and> overwrite demoJob
   \<and> \<not> parentChainExists emptyDisk (absoluteOutputLocation demoOutput)
   \<and> parentChainExists (files (snd (beforeRender demoEnv demoJob emptyDisk)))
        (absoluteOutputLocation demoOutput)"
proof -
  have h: "fst (beforeRender demoEnv demoJob emptyDisk) = Inr (demoResources, demoOutput)"
    by (simp add: run_defs)
  have o: "overwrite demoJob"
    by (simp add: run_defs)
  have missing: "\<not> parentChainExists emptyDisk (absoluteOutputLocation demoOutput)"
    by (simp add: run_defs)
  show ?thesis
    using h o missing parent_directories_before_render [OF h] by blast
qed

subsection \<open>The summary line\<close>

lemma renderStill_result:
  "fst (renderStill env job res out s)
     = (case renderResult (internalRenderStill env (stillOptions job res out)) of
          Some e \<Rightarrow> Inl e | None \<Rightarrow> Inr ())"
  by (simp add: renderStill_def Let_def split: option.splits)

lemma renderStill_resolved:
  assumes "renderResult (internalRenderStill env (stillOptions job res out)) = None"
  shows "files (snd (renderStill env job res out s))
           = (files s)(absoluteOutputLocation out \<mapsto> File)"
    and "summaryLines (trace (snd (renderStill env job res out s)))
           = summaryLines (trace s)
               @ [padEnd (glyph (exists out)) (LABEL_WIDTH env) @ [32]
                    @ codeUnits (relativeOutputLocation out)]"
  using assms by (simp_all add: renderStill_def Let_def)

lemma stillOptions_cong:
  "absoluteOutputLocation out = absoluteOutputLocation out' \<Longrightarrow>
   imageFormat out = imageFormat out' \<Longrightarrow>
   stillOptions job res out = stillOptions job res out'"
  by (simp add: stillOptions_def)

lemma resolveOutput_accepts:
  assumes "existsSync (files s) (canonicalOutput env job res) \<longrightarrow> overwrite job"
      and "mkdirSync_recursive (files s) (butlast (canonicalOutput env job res)) = Inr disk"
  shows "resolveOutput env job res s
           = (Inr \<lparr>imageFormat = fst (decideFormat env job res),
                   source = snd (decideFormat env job res),
                   relativeOutputLocation = relativeOutputOf env job res,
                   absoluteOutputLocation = canonicalOutput env job res,
                   exists = existsSync (files s) (canonicalOutput env job res)\<rparr>,
              (emit (MkdirSync (butlast (canonicalOutput env job res))) s)\<lparr>files := disk\<rparr>)"
  using assms
  by (auto simp: resolveOutput_def getAndValidateAbsoluteOutputFile_def canonicalOutput_def
        path_join_parent Let_def)

lemma resolveOutput_refuses:
  assumes "existsSync (files s) (canonicalOutput env job res)" and "\<not> overwrite job"
  shows "resolveOutput env job res s = (Inl OutputExistsError, s)"
  using assms
  by (simp add: resolveOutput_def getAndValidateAbsoluteOutputFile_def canonicalOutput_def Let_def)

text \<open>
  C8 (amended). When no output path is given, the relative output path is the composition
  id, a dot and the string of the chosen format. The glyph of the summary line of a run
  that completes tells whether the output file existed before the write: on a fresh path
  it is the plus sign. With overwrite enabled, an identical second run on the file system
  the first has left completes and prints the circle; with overwrite disabled the second
  run fails with \<open>OutputExistsError\<close> and prints no summary line.
\<close>

theorem summary_line_glyph:
  assumes "fst (renderStillFlow env job fs) = Inr ()"
  shows "\<exists>res. fst (acquireResources env job (initialState env fs)) = Inr res
     \<and> (getUserPassedOutputLocation env (argsAfterComposition (resolution res))
            (outputLocationFromUi job) = None
          \<longrightarrow> relativeOutputOf env job res
                = compositionId (resolution res) @ ''.''
                    @ formatString (fst (decideFormat env job res)))
     \<and> summaryLines (trace (snd (renderStillFlow env job fs)))
         = [padEnd (glyph (existsSync fs (canonicalOutput env job res))) (LABEL_WIDTH env)
              @ [32] @ codeUnits (relativeOutputOf env job res)]
     \<and> (overwrite job \<longrightarrow>
           fst (renderStillFlow env job (files (snd (renderStillFlow env job fs)))) = Inr ()
         \<and> summaryLines
             (trace (snd (renderStillFlow env job (files (snd (renderStillFlow env job fs))))))
             = [padEnd (glyph True) (LABEL_WIDTH env)
                  @ [32] @ codeUnits (relativeOutputOf env job res)])
     \<and> (\<not> overwrite job \<longrightarrow>
           fst (renderStillFlow env job (files (snd (renderStillFlow env job fs))))
             = Inl OutputExistsError
         \<and> summaryLines
             (trace (snd (renderStillFlow env job (files (snd (renderStillFlow env job fs))))))
             = [])"
proof -
  let ?init = "initialState env fs"
  obtain res sa where acq: "acquireResources env job ?init = (Inr res, sa)"
    using assms
    by (cases "acquireResources env job ?init")
       (auto simp: renderStillFlow_def beforeRender_def split: sum.splits prod.splits)
  obtain out sb where reso: "resolveOutput env job res sa = (Inr out, sb)"
    using assms acq
    by (cases "resolveOutput env job res sa")
       (auto simp: renderStillFlow_def beforeRender_def split: sum.splits prod.splits)
  let ?abs = "canonicalOutput env job res"
  let ?rel = "relativeOutputOf env job res"
  let ?sc = "announce env job res out sb"
  have flow: "renderStillFlow env job fs = renderStill env job res out ?sc"
    by (simp add: renderStillFlow_def beforeRender_def acq reso)
  have sa: "snd (acquireResources env job ?init) = sa"
    by (simp add: acq)
  have files_sa: "files sa = fs"
    by (simp add: sa [symmetric] initialState_def)
  have lines_sa: "summaryLines (trace sa) = []"
    by (simp add: sa [symmetric] initialState_def)
  note out = resolveOutput_Inr(1) [OF reso]
  have abs: "absoluteOutputLocation out = ?abs" and rel: "relativeOutputLocation out = ?rel"
    and fmt: "imageFormat out = fst (decideFormat env job res)"
    and ex: "exists out = existsSync fs ?abs"
    by (simp_all add: out files_sa)
  have mk: "mkdirSync_recursive fs (butlast ?abs) = Inr (files sb)"
    using resolveOutput_Inr(2) [OF reso] by (simp add: files_sa)
  have lines_sb: "summaryLines (trace sb) = []"
    by (simp add: resolveOutput_Inr(3) [OF reso] lines_sa)
  have resolved: "renderResult (internalRenderStill env (stillOptions job res out)) = None"
    using assms by (simp add: flow renderStill_result split: option.splits)
  let ?s1 = "snd (renderStillFlow env job fs)"
  let ?disk = "(files sb)(?abs \<mapsto> File)"
  have files1: "files ?s1 = ?disk"
    by (simp add: flow renderStill_resolved(1) [OF resolved] abs)
  have lines1: "summaryLines (trace ?s1)
                  = [padEnd (glyph (existsSync fs ?abs)) (LABEL_WIDTH env) @ [32] @ codeUnits ?rel]"
    by (simp add: flow renderStill_resolved(2) [OF resolved] lines_sb rel ex)
  have name: "getUserPassedOutputLocation env (argsAfterComposition (resolution res))
                (outputLocationFromUi job) = None
              \<Longrightarrow> ?rel = compositionId (resolution res) @ ''.''
                           @ formatString (fst (decideFormat env job res))"
    by (simp add: relativeOutputOf_def getOutputLocation_def)
  \<comment> \<open>the second run, on the file system the first has left\<close>
  let ?init2 = "initialState env ?disk"
  obtain sa2 where acq2: "acquireResources env job ?init2 = (Inr res, sa2)"
    using acquireResources_result [of env job ?init2 ?init]
    by (cases "acquireResources env job ?init2") (simp add: acq)
  have sa2: "snd (acquireResources env job ?init2) = sa2"
    by (simp add: acq2)
  have files_sa2: "files sa2 = ?disk"
    by (simp add: sa2 [symmetric] initialState_def)
  have lines_sa2: "summaryLines (trace sa2) = []"
    by (simp add: sa2 [symmetric] initialState_def)
  have there: "existsSync (files sa2) ?abs"
    by (simp add: files_sa2 existsSync_def)
  have again: "overwrite job \<Longrightarrow>
        fst (renderStillFlow env job ?disk) = Inr ()
      \<and> summaryLines (trace (snd (renderStillFlow env job ?disk)))
          = [padEnd (glyph True) (LABEL_WIDTH env) @ [32] @ codeUnits ?rel]"
  proof -
    assume ow: "overwrite job"
    have "parentChainExists (files sb) ?abs"
      by (rule mkdirSync_creates_parents [OF mk])
    then have "parentChainExists ?disk ?abs"
      by (rule parentChainExists_after_write)
    then have mk2: "mkdirSync_recursive (files sa2) (butlast ?abs) = Inr ?disk"
      by (simp add: files_sa2 mkdirSync_when_present)
    define out2 where "out2 = \<lparr>imageFormat = fst (decideFormat env job res),
                   source = snd (decideFormat env job res),
                   relativeOutputLocation = ?rel,
                   absoluteOutputLocation = ?abs,
                   exists = True\<rparr>"
    have abs2: "absoluteOutputLocation out2 = ?abs" and rel2: "relativeOutputLocation out2 = ?rel"
      and fmt2: "imageFormat out2 = fst (decideFormat env job res)" and ex2: "exists out2"
      by (simp_all add: out2_def)
    let ?sb2 = "(emit (MkdirSync (butlast ?abs)) sa2)\<lparr>files := ?disk\<rparr>"
    have reso2: "resolveOutput env job res sa2 = (Inr out2, ?sb2)"
      using resolveOutput_accepts [of sa2 env job res ?disk] ow mk2 there
      by (simp add: out2_def)
    have flow2: "renderStillFlow env job ?disk
                   = renderStill env job res out2 (announce env job res out2 ?sb2)"
      by (simp add: renderStillFlow_def beforeRender_def acq2 reso2)
    have "stillOptions job res out2 = stillOptions job res out"
      by (rule stillOptions_cong) (simp_all add: abs fmt abs2 fmt2)
    with resolved
    have resolved2: "renderResult (internalRenderStill env (stillOptions job res out2)) = None"
      by simp
    show ?thesis
      by (simp add: flow2 renderStill_result resolved2 renderStill_resolved(2) [OF resolved2]
          lines_sa2 rel2 ex2)
  qed
  have refused: "\<not> overwrite job \<Longrightarrow>
        fst (renderStillFlow env job ?disk) = Inl OutputExistsError
      \<and> summaryLines (trace (snd (renderStillFlow env job ?disk))) = []"
  proof -
    assume "\<not> overwrite job"
    with there have "resolveOutput env job res sa2 = (Inl OutputExistsError, sa2)"
      by (rule resolveOutput_refuses)
    then have "renderStillFlow env job ?disk = (Inl OutputExistsError, sa2)"
      by (simp add: renderStillFlow_def beforeRender_def acq2)
    then show ?thesis
      by (simp add: lines_sa2)
  qed
  have first: "fst (acquireResources env job ?init) = Inr res"
    by (simp add: acq)
  show ?thesis
    unfolding files1
    by (intro exI [of _ res] conjI impI) (use first name lines1 again refused in simp_all)
qed

text \<open>
  With overwrite disabled, the first run on a fresh path prints the plus sign, and the
  identical second run is refused: it prints no glyph at all.
\<close>

theorem second_run_glyph_counterexample:
  "fst (renderStillFlow demoEnv keepingJob emptyDisk) = Inr ()
   \<and> summaryLines (trace (snd (renderStillFlow demoEnv keepingJob emptyDisk)))
       = [[43, 32, 32, 32] @ codeUnits ''MyComp.png'']
   \<and> fst (renderStillFlow demoEnv keepingJob
            (files (snd (renderStillFlow demoEnv keepingJob emptyDisk))))
       = Inl OutputExistsError
   \<and> summaryLines
        (trace (snd (renderStillFlow demoEnv keepingJob
                       (files (snd (renderStillFlow demoEnv keepingJob emptyDisk))))))
       = []"
  by (simp add: run_defs)

theorem summary_line_glyph_witness:
  "fst (renderStillFlow demoEnv demoJob emptyDisk) = Inr ()
   \<and> overwrite demoJob
   \<and> relativeOutputOf demoEnv demoJob demoResources = ''MyComp.png''
   \<and> summaryLines (trace (snd (renderStillFlow demoEnv demoJob emptyDisk)))
       = [[43, 32, 32, 32] @ codeUnits ''MyComp.png'']
   \<and> summaryLines
        (trace (snd (renderStillFlow demoEnv demoJob
                       (files (snd (renderStillFlow demoEnv demoJob emptyDisk))))))
       = [[9675, 32, 32, 32] @ codeUnits ''MyComp.png'']"
proof -
  have h: "fst (renderStillFlow demoEnv demoJob emptyDisk) = Inr ()"
    by (simp add: run_defs)
  have o: "overwrite demoJob"
    by (simp add: run_defs)
  have acquired: "fst (acquireResources demoEnv demoJob (initialState demoEnv emptyDisk))
                    = Inr demoResources"
    by (simp add: run_defs)
  have rel: "relativeOutputOf demoEnv demoJob demoResources = ''MyComp.png''"
    by (simp add: run_defs)
  have fresh: "\<not> existsSync emptyDisk (canonicalOutput demoEnv demoJob demoResources)"
    by (simp add: run_defs)
  have width: "LABEL_WIDTH demoEnv = 3"
    by (simp add: run_defs)
  have pads: "padEnd (glyph False) 3 = [43, 32, 32]" "padEnd (glyph True) 3 = [9675, 32, 32]"
    by (simp_all add: run_defs)
  from summary_line_glyph [OF h] obtain res where
    res: "fst (acquireResources demoEnv demoJob (initialState demoEnv emptyDisk)) = Inr res"
    and first: "summaryLines (trace (snd (renderStillFlow demoEnv demoJob emptyDisk)))
         = [padEnd (glyph (existsSync emptyDisk (canonicalOutput demoEnv demoJob res)))
              (LABEL_WIDTH demoEnv) @ [32] @ codeUnits (relativeOutputOf demoEnv demoJob res)]"
    and second: "overwrite demoJob \<longrightarrow>
           fst (renderStillFlow demoEnv demoJob
                  (files (snd (renderStillFlow demoEnv demoJob emptyDisk)))) = Inr ()
         \<and> summaryLines
             (trace (snd (renderStillFlow demoEnv demoJob
                            (files (snd (renderStillFlow demoEnv demoJob emptyDisk))))))
             = [padEnd (glyph True) (LABEL_WIDTH demoEnv)
                  @ [32] @ codeUnits (relativeOutputOf demoEnv demoJob res)]"
    by blast
  have same: "res = demoResources"
    using res acquired by simp
  show ?thesis
    using h o rel first second fresh
    by (simp add: same width pads)
qed

end
